theory Spec2Isabelle
  imports Complex_Main "HOL-Library.AList" "HOL-Library.Multiset"
begin

section \<open>Parallel strategy execution (src/execution/ParallelExecutor.ts)\<close>

text \<open>
  The development embeds the class \<^verbatim>\<open>ParallelExecutor\<close>: the phase executor
  \<^verbatim>\<open>executePhase\<close>, the strategy runner \<^verbatim>\<open>executeSingleStrategy\<close>, the batch
  scheduler \<^verbatim>\<open>executeStrategies\<close> with \<^verbatim>\<open>createBatches\<close> and
  \<^verbatim>\<open>cancelRemainingExecutions\<close>, and the comparator \<^verbatim>\<open>compareStrategies\<close>.

  Conventions of the embedding:
  \<^item> JavaScript numbers are real numbers; the one place where the source writes
    \<^verbatim>\<open>Infinity\<close> (the loss of a failed run) has a type of its own.
  \<^item> Values the executor only passes on (the dataset, a model, a configuration block) are
    handles.
  \<^item> A promise that settles is a value of a sum type: \<open>Inl\<close> the rejection reason,
    \<open>Inr\<close> the value. The four agents are parameters; each is taken to settle.
  \<^item> The executor's mutable fields, the progress channel and the timers of the event loop
    are one state record that every operation passes on.
  \<^item> The runs of one batch are composed one after the other. In the source they interleave
    at their \<^verbatim>\<open>await\<close> points; a run reads only its own abort controller and the
    answers of its own agent calls.
\<close>

subsection \<open>Data model\<close>

type_synonym handle = nat

datatype phase = Data | Model | Training | Evaluation

datatype status = Pending | Running | Completed | Failed

fun phaseName :: "phase \<Rightarrow> string" where
  "phaseName Data = ''data''"
| "phaseName Model = ''model''"
| "phaseName Training = ''training''"
| "phaseName Evaluation = ''evaluation''"

datatype lossValue = Finite real | Infinity

text \<open>
  The \<^verbatim>\<open>data\<close> field of an \<^verbatim>\<open>AgentResult\<close> has type \<^verbatim>\<open>any\<close>. The executor reads
  the properties \<^verbatim>\<open>test\<close>, \<^verbatim>\<open>model\<close>, \<^verbatim>\<open>trainingTime\<close>, \<^verbatim>\<open>accuracy\<close> and
  \<^verbatim>\<open>loss\<close> of it, so a payload is a record of these; an absent payload
  (\<^verbatim>\<open>undefined\<close>) is \<open>None\<close>.
\<close>

record Payload =
  test :: handle
  model :: handle
  trainingTime :: real
  accuracy :: real
  loss :: lossValue

record AgentResult =
  success :: bool
  data :: "Payload option"

datatype taskData =
    PreprocessData handle string
  | DesignData "Payload option" handle
  | TrainData "Payload option" "Payload option" handle
  | EvaluateData handle handle

text \<open>
  An \<^verbatim>\<open>AgentTask\<close>; its fields \<^verbatim>\<open>id\<close>, \<^verbatim>\<open>type\<close> and \<^verbatim>\<open>data\<close> are
  \<open>taskId\<close>, \<open>taskType\<close> and \<open>taskData\<close> here. The cases of \<open>taskData\<close> are
  the four objects the executor builds: the raw data and the strategy; the data information
  and the architecture; the model, the processed data and the training configuration; the
  model and the test data.
\<close>

record AgentTask =
  taskId :: string
  taskType :: string
  taskData :: taskData

record ModelConfig =
  architecture :: handle

text \<open>
  The fields of an \<^verbatim>\<open>OptimizationPlan\<close> that the executor reads (the declaration, in
  \<^verbatim>\<open>../types\<close>, is not among the sources).
\<close>

record OptimizationPlan =
  strategyId :: string
  approach :: string
  modelConfig :: ModelConfig
  trainingConfig :: handle

record ExecutionProgress =
  strategyId :: string
  phase :: phase
  progress :: nat
  status :: status
  message :: string
  metrics :: "Payload option"

record FinalMetrics =
  accuracy :: real
  loss :: lossValue
  trainingTime :: real
  modelSize :: real

record ExecutionResult =
  strategyId :: string
  success :: bool
  finalMetrics :: FinalMetrics
  model :: "handle option"
  error :: "string option"

record Options =
  maxConcurrent :: "nat option"
  timeout :: "nat option"
  earlyStopOnSuccess :: "bool option"

text \<open>
  A thrown value or rejection reason: an \<^verbatim>\<open>Error\<close> object with its message, or any
  other value (one without a \<^verbatim>\<open>message\<close> property).
\<close>

datatype thrown = JSError string | NonError

text \<open>
  What the executor is given from outside: the four agents, whether the timeout callback of
  a run gets its turn on the event loop while the run awaits a given task, the samples of
  \<^verbatim>\<open>Math.random\<close>, and the rendering of a number inside a template string.
\<close>

record Environment =
  dataAgent :: "AgentTask \<Rightarrow> thrown + AgentResult"
  modelAgent :: "AgentTask \<Rightarrow> thrown + AgentResult"
  trainingAgent :: "AgentTask \<Rightarrow> thrown + AgentResult"
  evaluationAgent :: "AgentTask \<Rightarrow> thrown + AgentResult"
  timeoutElapsed :: "nat \<Rightarrow> AgentTask \<Rightarrow> bool"
  mathRandom :: "nat \<Rightarrow> real"
  numberToString :: "real \<Rightarrow> string"

text \<open>
  The state: the progress events published so far (oldest first), the registry
  \<^verbatim>\<open>activeExecutions\<close> in insertion order (strategy id, controller), the controllers whose
  signal is aborted, the pending timers (timer, controller it aborts), the tasks handed to
  agents so far, the number of samples drawn from \<^verbatim>\<open>Math.random\<close>, and the next unused
  handle.
\<close>

record ExecState =
  events :: "ExecutionProgress list"
  activeExecutions :: "(string \<times> handle) list"
  aborted :: "handle set"
  timers :: "handle \<rightharpoonup> handle"
  invocations :: "AgentTask list"
  randomDraws :: nat
  nextHandle :: handle

definition initialState :: ExecState where
  "initialState = \<lparr>events = [], activeExecutions = [], aborted = {}, timers = Map.empty,
     invocations = [], randomDraws = 0, nextHandle = 0\<rparr>"

subsection \<open>Actions: state passing with exceptions\<close>

type_synonym 'a action = "ExecState \<Rightarrow> (thrown + 'a) \<times> ExecState"

definition returns :: "'a \<Rightarrow> 'a action" where
  "returns v st = (Inr v, st)"

definition throws :: "thrown \<Rightarrow> 'a action" where
  "throws e st = (Inl e, st)"

definition perform :: "(ExecState \<Rightarrow> ExecState) \<Rightarrow> unit action" where
  "perform f st = (Inr (), f st)"

definition andThen :: "'a action \<Rightarrow> ('a \<Rightarrow> 'b action) \<Rightarrow> 'b action" where
  "andThen m f st = (case m st of (Inl e, st') \<Rightarrow> (Inl e, st') | (Inr v, st') \<Rightarrow> f v st')"

definition tryCatch :: "'a action \<Rightarrow> (thrown \<Rightarrow> 'a action) \<Rightarrow> 'a action" where
  "tryCatch body handler st =
     (case body st of (Inl e, st') \<Rightarrow> handler e st' | (Inr v, st') \<Rightarrow> (Inr v, st'))"

subsection \<open>Progress channel, timers, registry\<close>

text \<open>
  Modelled from the spec: the class \<^verbatim>\<open>EventEmitter\<close> that the executor extends is not
  among the sources. The specification describes the progress channel as a fan-out with no
  logic of its own, so \<^verbatim>\<open>emit\<close> adds the event to the published ones and does nothing
  else.
\<close>

definition emitProgress :: "ExecutionProgress \<Rightarrow> ExecState \<Rightarrow> ExecState" where
  "emitProgress p st = st\<lparr>events := events st @ [p]\<rparr>"

definition newAbortController :: "ExecState \<Rightarrow> handle \<times> ExecState" where
  "newAbortController st = (nextHandle st, st\<lparr>nextHandle := Suc (nextHandle st)\<rparr>)"

definition setTimeout :: "handle \<Rightarrow> ExecState \<Rightarrow> handle \<times> ExecState" where
  "setTimeout controller st =
     (nextHandle st,
      st\<lparr>timers := (timers st)(nextHandle st \<mapsto> controller),
         nextHandle := Suc (nextHandle st)\<rparr>)"

definition clearTimeout :: "handle \<Rightarrow> ExecState \<Rightarrow> ExecState" where
  "clearTimeout timeoutId st = st\<lparr>timers := (timers st)(timeoutId := None)\<rparr>"

definition registerExecution :: "string \<Rightarrow> handle \<Rightarrow> ExecState \<Rightarrow> ExecState" where
  "registerExecution sid controller st =
     st\<lparr>activeExecutions := AList.update sid controller (activeExecutions st)\<rparr>"

definition deleteExecution :: "string \<Rightarrow> ExecState \<Rightarrow> ExecState" where
  "deleteExecution sid st = st\<lparr>activeExecutions := AList.delete sid (activeExecutions st)\<rparr>"

definition cancelRemainingExecutions :: "ExecState \<Rightarrow> ExecState" where
  "cancelRemainingExecutions st =
     st\<lparr>aborted := aborted st \<union> snd ` set (activeExecutions st), activeExecutions := []\<rparr>"

text \<open>
  One turn of the event loop while a run awaits \<open>task\<close>: if the run's timer is still
  pending and its time has come, the callback aborts the controller.
\<close>

definition runTimeout :: "Environment \<Rightarrow> nat \<Rightarrow> handle \<Rightarrow> AgentTask \<Rightarrow> ExecState \<Rightarrow> ExecState" where
  "runTimeout env ms timeoutId task st =
     (case timers st timeoutId of
        None \<Rightarrow> st
      | Some controller \<Rightarrow>
          if timeoutElapsed env ms task
          then st\<lparr>aborted := insert controller (aborted st),
                  timers := (timers st)(timeoutId := None)\<rparr>
          else st)"

text \<open>\<^verbatim>\<open>await agent.execute(task)\<close>: the call is recorded, the agent settles.\<close>

definition awaitAgent ::
  "Environment \<Rightarrow> nat \<Rightarrow> handle \<Rightarrow> (AgentTask \<Rightarrow> thrown + AgentResult) \<Rightarrow> AgentTask
     \<Rightarrow> AgentResult action" where
  "awaitAgent env ms timeoutId agent task st =
     (agent task, runTimeout env ms timeoutId task (st\<lparr>invocations := invocations st @ [task]\<rparr>))"

subsection \<open>Phase executor\<close>

definition executePhase ::
  "phase \<Rightarrow> OptimizationPlan \<Rightarrow> AgentResult action \<Rightarrow> handle \<Rightarrow> AgentResult action" where
  "executePhase ph plan executor signal st =
     (if signal \<in> aborted st then (Inl (JSError ''Execution aborted''), st)
      else
        case executor (emitProgress
               \<lparr>ExecutionProgress.strategyId = OptimizationPlan.strategyId plan, phase = ph,
                progress = 25, status = Running,
                message = ''Executing '' @ phaseName ph @ '' phase'', metrics = None\<rparr> st) of
          (Inl e, st') \<Rightarrow> (Inl e, st')
        | (Inr result, st') \<Rightarrow>
            (Inr result,
             emitProgress
               \<lparr>ExecutionProgress.strategyId = OptimizationPlan.strategyId plan, phase = ph,
                progress = 100, status = Completed,
                message = phaseName ph @ '' phase completed'', metrics = None\<rparr> st'))"

subsection \<open>Strategy runner\<close>

text \<open>
  Reading a property of \<^verbatim>\<open>result.data\<close> throws a \<^verbatim>\<open>TypeError\<close> when the payload
  is \<^verbatim>\<open>undefined\<close>. The wording of the message is the engine's; the model keeps the
  name of the property.
\<close>

definition typeError :: "string \<Rightarrow> thrown" where
  "typeError property = JSError (''Cannot read properties of undefined (reading '' @ property @ '')'')"

definition payloadOf :: "AgentResult \<Rightarrow> string \<Rightarrow> Payload action" where
  "payloadOf result property =
     (case AgentResult.data result of
        None \<Rightarrow> throws (typeError property)
      | Some payload \<Rightarrow> returns payload)"

definition dataExecutor ::
  "Environment \<Rightarrow> nat \<Rightarrow> handle \<Rightarrow> OptimizationPlan \<Rightarrow> handle \<Rightarrow> AgentResult action" where
  "dataExecutor env ms timeoutId plan dataset =
     awaitAgent env ms timeoutId (dataAgent env)
       \<lparr>taskId = ''data-'' @ OptimizationPlan.strategyId plan, taskType = ''preprocess'',
        taskData = PreprocessData dataset (approach plan)\<rparr>"

definition modelExecutor ::
  "Environment \<Rightarrow> nat \<Rightarrow> handle \<Rightarrow> OptimizationPlan \<Rightarrow> AgentResult \<Rightarrow> AgentResult action" where
  "modelExecutor env ms timeoutId plan dataResult =
     awaitAgent env ms timeoutId (modelAgent env)
       \<lparr>taskId = ''model-'' @ OptimizationPlan.strategyId plan, taskType = ''design'',
        taskData = DesignData (AgentResult.data dataResult) (architecture (modelConfig plan))\<rparr>"

definition trainingExecutor ::
  "Environment \<Rightarrow> nat \<Rightarrow> handle \<Rightarrow> OptimizationPlan \<Rightarrow> AgentResult \<Rightarrow> AgentResult
     \<Rightarrow> AgentResult action" where
  "trainingExecutor env ms timeoutId plan dataResult modelResult =
     awaitAgent env ms timeoutId (trainingAgent env)
       \<lparr>taskId = ''train-'' @ OptimizationPlan.strategyId plan, taskType = ''train'',
        taskData = TrainData (AgentResult.data modelResult) (AgentResult.data dataResult)
                     (trainingConfig plan)\<rparr>"

definition evaluationExecutor ::
  "Environment \<Rightarrow> nat \<Rightarrow> handle \<Rightarrow> OptimizationPlan \<Rightarrow> AgentResult \<Rightarrow> AgentResult
     \<Rightarrow> AgentResult action" where
  "evaluationExecutor env ms timeoutId plan dataResult trainingResult =
     andThen (payloadOf trainingResult ''model'') (\<lambda>trained.
     andThen (payloadOf dataResult ''test'') (\<lambda>processed.
       awaitAgent env ms timeoutId (evaluationAgent env)
         \<lparr>taskId = ''eval-'' @ OptimizationPlan.strategyId plan, taskType = ''evaluate'',
          taskData = EvaluateData (Payload.model trained) (test processed)\<rparr>))"

text \<open>\<^verbatim>\<open>Math.round(Math.random() * 50 + 10)\<close>; the argument is not used.\<close>

definition calculateModelSize :: "Environment \<Rightarrow> handle \<Rightarrow> real action" where
  "calculateModelSize env m st =
     (Inr (of_int \<lfloor>mathRandom env (randomDraws st) * 50 + 10 + 1 / 2\<rfloor>),
      st\<lparr>randomDraws := Suc (randomDraws st)\<rparr>)"

definition requireSuccess :: "AgentResult \<Rightarrow> string \<Rightarrow> unit action" where
  "requireSuccess result msg =
     (if \<not> AgentResult.success result then throws (JSError msg) else returns ())"

text \<open>The failure sentinel, as both \<^verbatim>\<open>catch\<close> sites of the source write it.\<close>

definition failureResult :: "string \<Rightarrow> string \<Rightarrow> ExecutionResult" where
  "failureResult sid msg =
     \<lparr>ExecutionResult.strategyId = sid, success = False,
      finalMetrics = \<lparr>accuracy = 0, loss = Infinity, trainingTime = 0, modelSize = 0\<rparr>,
      model = None, error = Some msg\<rparr>"

text \<open>The body of the \<^verbatim>\<open>try\<close> block.\<close>

definition strategyBody ::
  "Environment \<Rightarrow> OptimizationPlan \<Rightarrow> handle \<Rightarrow> nat \<Rightarrow> handle \<Rightarrow> handle
     \<Rightarrow> ExecutionResult action" where
  "strategyBody env plan dataset ms abortController timeoutId =
     andThen (perform (emitProgress
       \<lparr>ExecutionProgress.strategyId = OptimizationPlan.strategyId plan, phase = Data,
        progress = 0, status = Running,
        message = ''Starting '' @ approach plan @ '' strategy'', metrics = None\<rparr>)) (\<lambda>_.
     andThen (executePhase Data plan (dataExecutor env ms timeoutId plan dataset)
                abortController) (\<lambda>dataResult.
     andThen (requireSuccess dataResult ''Data processing failed'') (\<lambda>_.
     andThen (executePhase Model plan (modelExecutor env ms timeoutId plan dataResult)
                abortController) (\<lambda>modelResult.
     andThen (requireSuccess modelResult ''Model design failed'') (\<lambda>_.
     andThen (executePhase Training plan
                (trainingExecutor env ms timeoutId plan dataResult modelResult)
                abortController) (\<lambda>trainingResult.
     andThen (requireSuccess trainingResult ''Training failed'') (\<lambda>_.
     andThen (executePhase Evaluation plan
                (evaluationExecutor env ms timeoutId plan dataResult trainingResult)
                abortController) (\<lambda>evalResult.
     andThen (perform (clearTimeout timeoutId)) (\<lambda>_.
     andThen (perform (deleteExecution (OptimizationPlan.strategyId plan))) (\<lambda>_.
     andThen (payloadOf evalResult ''accuracy'') (\<lambda>evaluated.
     andThen (perform (emitProgress
       \<lparr>ExecutionProgress.strategyId = OptimizationPlan.strategyId plan, phase = Evaluation,
        progress = 100, status = Completed,
        message = ''Strategy completed with '' @ numberToString env (Payload.accuracy evaluated)
                    @ ''% accuracy'',
        metrics = Some evaluated\<rparr>)) (\<lambda>_.
     andThen (payloadOf trainingResult ''trainingTime'') (\<lambda>trained.
     andThen (calculateModelSize env (Payload.model trained)) (\<lambda>size.
     returns
       \<lparr>ExecutionResult.strategyId = OptimizationPlan.strategyId plan, success = True,
        finalMetrics = \<lparr>accuracy = Payload.accuracy evaluated, loss = Payload.loss evaluated,
                         trainingTime = Payload.trainingTime trained, modelSize = size\<rparr>,
        model = Some (Payload.model trained), error = None\<rparr>))))))))))))))"

text \<open>\<^verbatim>\<open>error instanceof Error ? error.message : 'Unknown error'\<close>\<close>

fun errorMessage :: "thrown \<Rightarrow> string" where
  "errorMessage (JSError msg) = msg"
| "errorMessage NonError = ''Unknown error''"

text \<open>The \<^verbatim>\<open>catch\<close> block.\<close>

definition strategyHandler :: "OptimizationPlan \<Rightarrow> handle \<Rightarrow> thrown \<Rightarrow> ExecutionResult action" where
  "strategyHandler plan timeoutId err =
     andThen (perform (clearTimeout timeoutId)) (\<lambda>_.
     andThen (perform (deleteExecution (OptimizationPlan.strategyId plan))) (\<lambda>_.
     andThen (perform (emitProgress
       \<lparr>ExecutionProgress.strategyId = OptimizationPlan.strategyId plan, phase = Evaluation,
        progress = 0, status = Failed,
        message = ''Strategy failed: '' @ errorMessage err, metrics = None\<rparr>)) (\<lambda>_.
     returns (failureResult (OptimizationPlan.strategyId plan) (errorMessage err)))))"

definition executeSingleStrategy ::
  "Environment \<Rightarrow> OptimizationPlan \<Rightarrow> handle \<Rightarrow> nat \<Rightarrow> ExecutionResult action" where
  "executeSingleStrategy env plan dataset ms st =
     (let (abortController, st1) = newAbortController st;
          st2 = registerExecution (OptimizationPlan.strategyId plan) abortController st1;
          (timeoutId, st3) = setTimeout abortController st2
      in tryCatch (strategyBody env plan dataset ms abortController timeoutId)
           (strategyHandler plan timeoutId) st3)"

subsection \<open>Batch scheduler\<close>

text \<open>\<^verbatim>\<open>items.slice(i, j)\<close> for \<open>i \<le> j\<close>.\<close>

definition slice :: "'a list \<Rightarrow> nat \<Rightarrow> nat \<Rightarrow> 'a list" where
  "slice items i j = take (j - i) (drop i items)"

text \<open>
  The loop of \<^verbatim>\<open>createBatches\<close>. With a batch size of zero and a non-empty list the
  source never leaves the loop, so the loop is a partial function: \<open>None\<close> is not
  returning.
\<close>

partial_function (option) createBatchesLoop ::
  "'a list \<Rightarrow> nat \<Rightarrow> nat \<Rightarrow> 'a list list \<Rightarrow> 'a list list option" where
  "createBatchesLoop items batchSize i batches =
     (if i < length items
      then createBatchesLoop items batchSize (i + batchSize)
             (batches @ [slice items i (i + batchSize)])
      else Some batches)"

definition createBatches :: "'a list \<Rightarrow> nat \<Rightarrow> 'a list list option" where
  "createBatches items batchSize = createBatchesLoop items batchSize 0 []"

text \<open>
  \<^verbatim>\<open>Promise.allSettled(batch.map(plan => run(plan)))\<close>: every plan of the batch is run
  and its settled promise is kept beside it, so that entry \<open>i\<close> of the outcome belongs to
  \<^verbatim>\<open>batch[i]\<close>.
\<close>

fun settleBatch ::
  "(OptimizationPlan \<Rightarrow> ExecutionResult action) \<Rightarrow> OptimizationPlan list \<Rightarrow> ExecState
     \<Rightarrow> (OptimizationPlan \<times> (thrown + ExecutionResult)) list \<times> ExecState" where
  "settleBatch run [] st = ([], st)"
| "settleBatch run (plan # batch) st =
     (case run plan st of (outcome, st') \<Rightarrow>
        (case settleBatch run batch st' of (outcomes, st'') \<Rightarrow>
           ((plan, outcome) # outcomes, st'')))"

text \<open>\<^verbatim>\<open>result.reason?.message || 'Unknown error'\<close>\<close>

fun reasonMessage :: "thrown \<Rightarrow> string" where
  "reasonMessage (JSError msg) = (if msg = [] then ''Unknown error'' else msg)"
| "reasonMessage NonError = ''Unknown error''"

text \<open>
  The inner loop over the settled promises of a batch. \<open>Returned\<close> is the early
  \<^verbatim>\<open>return results\<close>; \<open>Collected\<close> is the loop running to its end.
\<close>

datatype collected = Returned "ExecutionResult list" | Collected "ExecutionResult list"

fun collectResults ::
  "bool \<Rightarrow> (OptimizationPlan \<times> (thrown + ExecutionResult)) list \<Rightarrow> ExecutionResult list
     \<Rightarrow> ExecState \<Rightarrow> collected \<times> ExecState" where
  "collectResults earlyStop [] results st = (Collected results, st)"
| "collectResults earlyStop ((plan, Inr v) # rest) results st =
     (if earlyStop \<and> ExecutionResult.success v
           \<and> FinalMetrics.accuracy (finalMetrics v) \<ge> 0.95
      then (Returned (results @ [v]), cancelRemainingExecutions st)
      else collectResults earlyStop rest (results @ [v]) st)"
| "collectResults earlyStop ((plan, Inl reason) # rest) results st =
     collectResults earlyStop rest
       (results @ [failureResult (OptimizationPlan.strategyId plan) (reasonMessage reason)]) st"

text \<open>The outer loop over the batches.\<close>

fun runBatches ::
  "(OptimizationPlan \<Rightarrow> ExecutionResult action) \<Rightarrow> bool \<Rightarrow> OptimizationPlan list list
     \<Rightarrow> ExecutionResult list \<Rightarrow> ExecState \<Rightarrow> ExecutionResult list \<times> ExecState" where
  "runBatches run earlyStop [] results st = (results, st)"
| "runBatches run earlyStop (batch # batches) results st =
     (case settleBatch run batch st of (batchResults, st') \<Rightarrow>
        (case collectResults earlyStop batchResults results st' of
           (Returned results', st'') \<Rightarrow> (results', st'')
         | (Collected results', st'') \<Rightarrow> runBatches run earlyStop batches results' st''))"

text \<open>
  \<^verbatim>\<open>executeStrategies\<close> with the strategy runner as a parameter: the scheduler is written
  against promises that may reject, whatever the runner does. The option
  \<^verbatim>\<open>maxConcurrent\<close> is a natural number. \<open>None\<close> is not returning.
\<close>

definition executeStrategiesWith ::
  "(OptimizationPlan \<Rightarrow> handle \<Rightarrow> nat \<Rightarrow> ExecutionResult action) \<Rightarrow> OptimizationPlan list
     \<Rightarrow> handle \<Rightarrow> Options \<Rightarrow> ExecState \<Rightarrow> (ExecutionResult list \<times> ExecState) option" where
  "executeStrategiesWith runner plans dataset options st =
     (let maxConcurrent = (case Options.maxConcurrent options of None \<Rightarrow> 3 | Some n \<Rightarrow> n);
          timeout = (case Options.timeout options of None \<Rightarrow> 3600000 | Some ms \<Rightarrow> ms);
          earlyStopOnSuccess =
            (case Options.earlyStopOnSuccess options of None \<Rightarrow> False | Some b \<Rightarrow> b)
      in case createBatches plans maxConcurrent of
           None \<Rightarrow> None
         | Some batches \<Rightarrow>
             Some (runBatches (\<lambda>plan. runner plan dataset timeout) earlyStopOnSuccess
                     batches [] st))"

definition executeStrategies ::
  "Environment \<Rightarrow> OptimizationPlan list \<Rightarrow> handle \<Rightarrow> Options \<Rightarrow> ExecState
     \<Rightarrow> (ExecutionResult list \<times> ExecState) option" where
  "executeStrategies env = executeStrategiesWith (executeSingleStrategy env)"

subsection \<open>Comparator\<close>

text \<open>
  The comparison function handed to \<^verbatim>\<open>sort\<close>. Numbers are real numbers here; the
  doubles of the source can compare differently where a difference of two accuracies is
  within rounding distance of 0.01, and the examples below keep away from that boundary.
\<close>

definition compareFn :: "ExecutionResult \<Rightarrow> ExecutionResult \<Rightarrow> real" where
  "compareFn a b =
     (if \<bar>FinalMetrics.accuracy (finalMetrics a) - FinalMetrics.accuracy (finalMetrics b)\<bar> > 0.01
      then FinalMetrics.accuracy (finalMetrics b) - FinalMetrics.accuracy (finalMetrics a)
      else FinalMetrics.trainingTime (finalMetrics a) - FinalMetrics.trainingTime (finalMetrics b))"

text \<open>
  \<^verbatim>\<open>Array.prototype.sort\<close> with a comparison function, as a stable insertion sort: an
  element goes before the first later element that it does not compare greater than.
  ECMAScript fixes the result of \<^verbatim>\<open>sort\<close> only for a comparison function that is
  consistent on the elements; every stable sort then returns this list. For a comparison
  function that is not consistent the order is left to the implementation, and it need not
  be the one of this insertion sort.
\<close>

fun insertSorted :: "('a \<Rightarrow> 'a \<Rightarrow> real) \<Rightarrow> 'a \<Rightarrow> 'a list \<Rightarrow> 'a list" where
  "insertSorted cmp x [] = [x]"
| "insertSorted cmp x (y # ys) =
     (if cmp x y \<le> 0 then x # y # ys else y # insertSorted cmp x ys)"

fun arraySort :: "('a \<Rightarrow> 'a \<Rightarrow> real) \<Rightarrow> 'a list \<Rightarrow> 'a list" where
  "arraySort cmp [] = []"
| "arraySort cmp (x # xs) = insertSorted cmp x (arraySort cmp xs)"

text \<open>\<^verbatim>\<open>ranked.reduce((prev, curr) => better curr prev ? curr : prev)\<close> on a non-empty array.\<close>

definition reduceWinner ::
  "(ExecutionResult \<Rightarrow> ExecutionResult \<Rightarrow> bool) \<Rightarrow> ExecutionResult \<Rightarrow> ExecutionResult list
     \<Rightarrow> ExecutionResult" where
  "reduceWinner better first others =
     foldl (\<lambda>prev curr. if better curr prev then curr else prev) first others"

text \<open>
  The value returned by \<^verbatim>\<open>compareStrategies\<close>, without the recommendation texts, which
  render quotients of numbers as strings.
\<close>

record Comparison =
  best :: ExecutionResult
  ranking :: "ExecutionResult list"
  accuracyWinner :: string
  speedWinner :: string
  sizeWinner :: string
  overallWinner :: string

definition compareStrategies :: "ExecutionResult list \<Rightarrow> thrown + Comparison" where
  "compareStrategies results =
     (let ranked = arraySort compareFn (filter ExecutionResult.success results)
      in case ranked of
           [] \<Rightarrow> Inl (JSError ''No successful strategies to compare'')
         | first # others \<Rightarrow>
             Inr \<lparr>best = first, ranking = ranked,
                  accuracyWinner = ExecutionResult.strategyId
                    (reduceWinner (\<lambda>curr prev. FinalMetrics.accuracy (finalMetrics curr)
                        > FinalMetrics.accuracy (finalMetrics prev)) first others),
                  speedWinner = ExecutionResult.strategyId
                    (reduceWinner (\<lambda>curr prev. FinalMetrics.trainingTime (finalMetrics curr)
                        < FinalMetrics.trainingTime (finalMetrics prev)) first others),
                  sizeWinner = ExecutionResult.strategyId
                    (reduceWinner (\<lambda>curr prev. FinalMetrics.modelSize (finalMetrics curr)
                        < FinalMetrics.modelSize (finalMetrics prev)) first others),
                  overallWinner = ExecutionResult.strategyId first\<rparr>)"

subsection \<open>Notions used to state the properties\<close>

text \<open>The events published between two states of one execution.\<close>

definition published :: "ExecState \<Rightarrow> ExecState \<Rightarrow> ExecutionProgress list" where
  "published st st' = drop (length (events st)) (events st')"

text \<open>What \<^verbatim>\<open>executeStrategies\<close> pushes for a settled promise.\<close>

fun recorded :: "OptimizationPlan \<times> (thrown + ExecutionResult) \<Rightarrow> ExecutionResult" where
  "recorded (plan, Inr v) = v"
| "recorded (plan, Inl reason) =
     failureResult (OptimizationPlan.strategyId plan) (reasonMessage reason)"

text \<open>The ids of the tasks that a run of a plan hands to the agents.\<close>

definition tasksOf :: "OptimizationPlan \<Rightarrow> string set" where
  "tasksOf plan =
     {''data-'' @ OptimizationPlan.strategyId plan, ''model-'' @ OptimizationPlan.strategyId plan,
      ''train-'' @ OptimizationPlan.strategyId plan, ''eval-'' @ OptimizationPlan.strategyId plan}"

text \<open>The early-stop test on a collected result.\<close>

definition reachedTarget :: "ExecutionResult \<Rightarrow> bool" where
  "reachedTarget r =
     (ExecutionResult.success r \<and> FinalMetrics.accuracy (finalMetrics r) \<ge> 0.95)"

text \<open>
  What is collected of a list of results, taken in order: with early stop, the results up
  to and including the first that reaches the target; without, all of them.
\<close>

fun collectedPrefix :: "bool \<Rightarrow> ExecutionResult list \<Rightarrow> ExecutionResult list" where
  "collectedPrefix earlyStop [] = []"
| "collectedPrefix earlyStop (r # rs) =
     (if earlyStop \<and> reachedTarget r then [r] else r # collectedPrefix earlyStop rs)"

text \<open>
  The batches \<^verbatim>\<open>createBatches\<close> returns for a positive batch size, in closed form
  (for size zero the value is arbitrary and not used).
\<close>

function chunks :: "nat \<Rightarrow> 'a list \<Rightarrow> 'a list list" where
  "chunks b xs = (if b = 0 \<or> xs = [] then [] else take b xs # chunks b (drop b xs))"
  by pat_completeness auto
termination
  by (relation "measure (\<lambda>(b, xs). length xs)") auto

text \<open>
  The order the specification asks of a ranking: of two results whose accuracies differ by
  less than 0.01 the faster one comes first, of two others the more accurate one.
\<close>

definition specifiedOrder :: "ExecutionResult \<Rightarrow> ExecutionResult \<Rightarrow> bool" where
  "specifiedOrder a b =
     (if \<bar>FinalMetrics.accuracy (finalMetrics a) - FinalMetrics.accuracy (finalMetrics b)\<bar> < 0.01
      then FinalMetrics.trainingTime (finalMetrics a) \<le> FinalMetrics.trainingTime (finalMetrics b)
      else FinalMetrics.accuracy (finalMetrics a) \<ge> FinalMetrics.accuracy (finalMetrics b))"

text \<open>Weakest preconditions of actions, for the proofs about the strategy runner.\<close>

definition wp :: "'a action \<Rightarrow> ((thrown + 'a) \<Rightarrow> ExecState \<Rightarrow> bool) \<Rightarrow> ExecState \<Rightarrow> bool" where
  "wp m Q st = Q (fst (m st)) (snd (m st))"

subsection \<open>Example inputs\<close>

definition examplePayload :: Payload where
  "examplePayload =
     \<lparr>test = 1, model = 2, trainingTime = 120, accuracy = 0.5, loss = Finite 1\<rparr>"

definition exampleResult :: AgentResult where
  "exampleResult = \<lparr>AgentResult.success = True, data = Some examplePayload\<rparr>"

text \<open>An agent that resolves with \<^verbatim>\<open>success: true\<close> and the example payload.\<close>

definition resolved :: "AgentTask \<Rightarrow> thrown + AgentResult" where
  "resolved task = Inr exampleResult"

definition exampleEnv :: Environment where
  "exampleEnv =
     \<lparr>dataAgent = resolved, modelAgent = resolved, trainingAgent = resolved,
      evaluationAgent = resolved, timeoutElapsed = (\<lambda>ms task. False),
      mathRandom = (\<lambda>n. 0), numberToString = (\<lambda>x. ''#'')\<rparr>"

definition examplePlan :: "string \<Rightarrow> OptimizationPlan" where
  "examplePlan sid =
     \<lparr>OptimizationPlan.strategyId = sid, approach = ''transfer-learning'',
      modelConfig = \<lparr>architecture = 0\<rparr>, trainingConfig = 0\<rparr>"

definition exampleOptions :: Options where
  "exampleOptions = \<lparr>maxConcurrent = Some 2, timeout = Some 1000, earlyStopOnSuccess = None\<rparr>"

text \<open>An evaluation agent that resolves with \<^verbatim>\<open>success: false\<close> and a payload.\<close>

definition evaluationUnsuccessful :: "AgentTask \<Rightarrow> thrown + AgentResult" where
  "evaluationUnsuccessful task = Inr \<lparr>AgentResult.success = False, data = Some examplePayload\<rparr>"

text \<open>An evaluation agent that reports an accuracy of 0.97.\<close>

definition evaluationAccurate :: "AgentTask \<Rightarrow> thrown + AgentResult" where
  "evaluationAccurate task =
     Inr \<lparr>AgentResult.success = True, data = Some (examplePayload\<lparr>Payload.accuracy := 0.97\<rparr>)\<rparr>"

definition earlyStopOptions :: Options where
  "earlyStopOptions = \<lparr>maxConcurrent = Some 1, timeout = Some 1000, earlyStopOnSuccess = Some True\<rparr>"

text \<open>
  A state in which another strategy, \<^verbatim>\<open>other\<close>, is registered as active with the
  controller 7.
\<close>

definition busyState :: ExecState where
  "busyState = initialState\<lparr>activeExecutions := [(''other'', 7)], nextHandle := 8\<rparr>"

text \<open>An agent that rejects.\<close>

definition rejecting :: "AgentTask \<Rightarrow> thrown + AgentResult" where
  "rejecting task = Inl (JSError ''out of memory'')"

text \<open>A runner whose promise rejects for the strategy \<^verbatim>\<open>bad\<close> and is fulfilled otherwise.\<close>

definition faultyRunner :: "OptimizationPlan \<Rightarrow> handle \<Rightarrow> nat \<Rightarrow> ExecutionResult action" where
  "faultyRunner plan dataset ms st =
     (if OptimizationPlan.strategyId plan = ''bad'' then (Inl (JSError ''fault''), st)
      else (Inr \<lparr>ExecutionResult.strategyId = OptimizationPlan.strategyId plan, success = True,
                 finalMetrics = \<lparr>accuracy = 0.97, loss = Finite 0.1, trainingTime = 100,
                                  modelSize = 20\<rparr>,
                 model = Some 2, error = None\<rparr>, st))"

definition rankedExample :: "string \<Rightarrow> real \<Rightarrow> real \<Rightarrow> ExecutionResult" where
  "rankedExample sid acc time =
     \<lparr>ExecutionResult.strategyId = sid, success = True,
      finalMetrics = \<lparr>accuracy = acc, loss = Finite 0.1, trainingTime = time, modelSize = 20\<rparr>,
      model = Some 2, error = None\<rparr>"

section \<open>Proofs\<close>

subsection \<open>Weakest preconditions of the runner's steps\<close>

lemma wp_returns: "wp (returns v) Q st = Q (Inr v) st"
  by (simp add: wp_def returns_def)

lemma wp_tryCatch:
  "wp (tryCatch body handler) Q st =
     wp body (\<lambda>r s. case r of Inl e \<Rightarrow> wp (handler e) Q s | Inr v \<Rightarrow> Q (Inr v) s) st"
  by (cases "body st") (simp add: wp_def tryCatch_def split: sum.splits)

lemma wp_awaitAgent:
  "wp (awaitAgent env ms timeoutId agent task) Q st =
     Q (agent task) (runTimeout env ms timeoutId task (st\<lparr>invocations := invocations st @ [task]\<rparr>))"
  by (simp add: wp_def awaitAgent_def)

lemma wp_andThen_perform: "wp (andThen (perform g) f) Q st = wp (f ()) Q (g st)"
  by (simp add: wp_def andThen_def perform_def)

lemma wp_andThen_requireSuccess:
  "wp (andThen (requireSuccess result msg) f) Q st =
     (if \<not> AgentResult.success result then Q (Inl (JSError msg)) st else wp (f ()) Q st)"
  by (simp add: wp_def andThen_def requireSuccess_def returns_def throws_def)

lemma wp_andThen_payloadOf:
  "wp (andThen (payloadOf result property) f) Q st =
     (case AgentResult.data result of
        None \<Rightarrow> Q (Inl (typeError property)) st
      | Some payload \<Rightarrow> wp (f payload) Q st)"
  by (simp add: wp_def andThen_def payloadOf_def returns_def throws_def split: option.splits)

lemma wp_andThen_calculateModelSize:
  "wp (andThen (calculateModelSize env m) f) Q st =
     wp (f (of_int \<lfloor>mathRandom env (randomDraws st) * 50 + 10 + 1 / 2\<rfloor>)) Q
       (st\<lparr>randomDraws := Suc (randomDraws st)\<rparr>)"
  by (simp add: wp_def andThen_def calculateModelSize_def)

lemma wp_andThen_executePhase:
  "wp (andThen (executePhase ph plan executor signal) f) Q st =
     (if signal \<in> aborted st then Q (Inl (JSError ''Execution aborted'')) st
      else wp executor
             (\<lambda>r s. case r of
                 Inl e \<Rightarrow> Q (Inl e) s
               | Inr v \<Rightarrow> wp (f v) Q (emitProgress
                   \<lparr>ExecutionProgress.strategyId = OptimizationPlan.strategyId plan, phase = ph,
                    progress = 100, status = Completed,
                    message = phaseName ph @ '' phase completed'', metrics = None\<rparr> s))
             (emitProgress
                \<lparr>ExecutionProgress.strategyId = OptimizationPlan.strategyId plan, phase = ph,
                 progress = 25, status = Running,
                 message = ''Executing '' @ phaseName ph @ '' phase'', metrics = None\<rparr> st))"
  by (simp add: wp_def andThen_def executePhase_def split: prod.splits sum.splits)

lemma wp_executeSingleStrategy:
  "wp (executeSingleStrategy env plan dataset ms) Q st =
     wp (tryCatch (strategyBody env plan dataset ms (nextHandle st) (Suc (nextHandle st)))
           (strategyHandler plan (Suc (nextHandle st)))) Q
        (st\<lparr>activeExecutions :=
              AList.update (OptimizationPlan.strategyId plan) (nextHandle st) (activeExecutions st),
            timers := (timers st)(Suc (nextHandle st) \<mapsto> nextHandle st),
            nextHandle := Suc (Suc (nextHandle st))\<rparr>)"
  by (simp add: wp_def executeSingleStrategy_def newAbortController_def registerExecution_def
      setTimeout_def)

lemmas wp_rules = wp_returns wp_tryCatch wp_awaitAgent wp_andThen_perform
  wp_andThen_requireSuccess wp_andThen_payloadOf wp_andThen_calculateModelSize
  wp_andThen_executePhase

lemmas runner_defs = strategyBody_def strategyHandler_def dataExecutor_def modelExecutor_def
  trainingExecutor_def evaluationExecutor_def emitProgress_def clearTimeout_def
  deleteExecution_def

lemma runTimeout_frame:
  "events (runTimeout env ms t task st) = events st"
  "activeExecutions (runTimeout env ms t task st) = activeExecutions st"
  "invocations (runTimeout env ms t task st) = invocations st"
  "randomDraws (runTimeout env ms t task st) = randomDraws st"
  "nextHandle (runTimeout env ms t task st) = nextHandle st"
  "(timers (runTimeout env ms t task st))(t := None) = (timers st)(t := None)"
  by (simp_all add: runTimeout_def split: option.splits)

subsection \<open>What one run of the strategy runner does\<close>

lemma run_registry:
  "wp (executeSingleStrategy env plan dataset ms)
     (\<lambda>r s. activeExecutions s =
        AList.delete (OptimizationPlan.strategyId plan) (activeExecutions st)) st"
  by (simp add: wp_executeSingleStrategy runner_defs wp_rules runTimeout_frame
      AList.delete_update_same AList.delete_idem split: sum.split option.split)

lemma run_timers:
  "wp (executeSingleStrategy env plan dataset ms)
     (\<lambda>r s. timers s = (timers st)(Suc (nextHandle st) := None)
        \<and> nextHandle s = Suc (Suc (nextHandle st))) st"
  by (simp add: wp_executeSingleStrategy runner_defs wp_rules runTimeout_frame
      split: sum.split option.split)

lemma failureResult_simps:
  "ExecutionResult.strategyId (failureResult sid msg) = sid"
  "ExecutionResult.success (failureResult sid msg) = False"
  "ExecutionResult.error (failureResult sid msg) = Some msg"
  "ExecutionResult.model (failureResult sid msg) = None"
  "finalMetrics (failureResult sid msg) =
     \<lparr>accuracy = 0, loss = Infinity, trainingTime = 0, modelSize = 0\<rparr>"
  by (simp_all add: failureResult_def)

lemma run_result:
  "wp (executeSingleStrategy env plan dataset ms)
     (\<lambda>r s. case r of
        Inl e \<Rightarrow> False
      | Inr res \<Rightarrow>
          ExecutionResult.strategyId res = OptimizationPlan.strategyId plan
          \<and> (if ExecutionResult.success res
              then ExecutionResult.model res \<noteq> None \<and> ExecutionResult.error res = None
              else res = failureResult (OptimizationPlan.strategyId plan)
                           (the (ExecutionResult.error res)))) st"
  by (simp add: wp_executeSingleStrategy runner_defs wp_rules runTimeout_frame
      failureResult_simps split: sum.split option.split)

lemma run_events:
  "wp (executeSingleStrategy env plan dataset ms)
     (\<lambda>r s. case r of
        Inl e \<Rightarrow> False
      | Inr res \<Rightarrow>
          filter (\<lambda>e. status e = Failed) (published st s) =
            (if ExecutionResult.success res then []
             else [\<lparr>ExecutionProgress.strategyId = OptimizationPlan.strategyId plan,
                    phase = Evaluation, progress = 0, status = Failed,
                    message = ''Strategy failed: '' @ the (ExecutionResult.error res),
                    metrics = None\<rparr>])) st"
  by (simp add: wp_executeSingleStrategy runner_defs wp_rules runTimeout_frame failureResult_def
      published_def split: sum.split option.split)

lemma run_fulfilled:
  "\<exists>res. fst (executeSingleStrategy env plan dataset ms st) = Inr res
     \<and> ExecutionResult.strategyId res = OptimizationPlan.strategyId plan"
  using run_result [of env plan dataset ms st]
  by (cases "fst (executeSingleStrategy env plan dataset ms st)") (simp_all add: wp_def)

lemma run_invocations:
  "wp (executeSingleStrategy env plan dataset ms)
     (\<lambda>r s. taskId ` set (invocations s) \<subseteq> taskId ` set (invocations st) \<union> tasksOf plan) st"
  by (simp add: wp_executeSingleStrategy runner_defs wp_rules runTimeout_frame tasksOf_def
      split: sum.split option.split) blast

text \<open>
  A run ends in success only if the data, model and training agents resolved with
  \<^verbatim>\<open>success: true\<close> and the evaluation agent resolved with a payload: a rejection, a
  triggered token, an absent payload that is read, and an unsuccessful data, model or
  training phase all end in the failure sentinel. The \<^verbatim>\<open>success\<close> flag of the
  evaluation result is not among the conditions.
\<close>

lemma run_success_only_if:
  "wp (executeSingleStrategy env plan dataset ms)
     (\<lambda>r s. case r of
        Inl e \<Rightarrow> False
      | Inr res \<Rightarrow>
          ExecutionResult.success res \<longrightarrow>
            (\<exists>d m t e.
               dataAgent env \<lparr>taskId = ''data-'' @ OptimizationPlan.strategyId plan,
                 taskType = ''preprocess'', taskData = PreprocessData dataset (approach plan)\<rparr>
                 = Inr d \<and> AgentResult.success d
             \<and> modelAgent env \<lparr>taskId = ''model-'' @ OptimizationPlan.strategyId plan,
                 taskType = ''design'',
                 taskData = DesignData (AgentResult.data d) (architecture (modelConfig plan))\<rparr>
                 = Inr m \<and> AgentResult.success m
             \<and> trainingAgent env \<lparr>taskId = ''train-'' @ OptimizationPlan.strategyId plan,
                 taskType = ''train'',
                 taskData = TrainData (AgentResult.data m) (AgentResult.data d)
                              (trainingConfig plan)\<rparr>
                 = Inr t \<and> AgentResult.success t
             \<and> AgentResult.data t \<noteq> None \<and> AgentResult.data d \<noteq> None
             \<and> evaluationAgent env \<lparr>taskId = ''eval-'' @ OptimizationPlan.strategyId plan,
                 taskType = ''evaluate'',
                 taskData = EvaluateData (Payload.model (the (AgentResult.data t)))
                              (test (the (AgentResult.data d)))\<rparr>
                 = Inr e \<and> AgentResult.data e \<noteq> None)) st"
  by (simp add: wp_executeSingleStrategy runner_defs wp_rules runTimeout_frame
      failureResult_simps split: sum.split option.split)

subsection \<open>Batches\<close>

declare chunks.simps [simp del]

lemma chunks_Nil: "chunks b [] = []"
  by (simp add: chunks.simps)

lemma chunks_step: "0 < b \<Longrightarrow> xs \<noteq> [] \<Longrightarrow> chunks b xs = take b xs # chunks b (drop b xs)"
  by (subst chunks.simps) simp

lemma createBatchesLoop_chunks:
  "0 < b \<Longrightarrow> createBatchesLoop items b i acc = Some (acc @ chunks b (drop i items))"
proof (induction "length items - i" arbitrary: i acc rule: less_induct)
  case less
  show ?case
  proof (cases "i < length items")
    case True
    with less.prems have smaller: "length items - (i + b) < length items - i" by arith
    have "createBatchesLoop items b i acc =
            createBatchesLoop items b (i + b) (acc @ [slice items i (i + b)])"
      using True by (subst createBatchesLoop.simps) simp
    also have "\<dots> = Some ((acc @ [slice items i (i + b)]) @ chunks b (drop (i + b) items))"
      by (rule less.hyps [OF smaller less.prems])
    also have "chunks b (drop i items) = take b (drop i items) # chunks b (drop (i + b) items)"
      using True less.prems by (simp add: chunks_step add.commute)
    then have "(acc @ [slice items i (i + b)]) @ chunks b (drop (i + b) items) =
                 acc @ chunks b (drop i items)"
      by (simp add: slice_def)
    finally show ?thesis .
  next
    case False
    then show ?thesis
      by (subst createBatchesLoop.simps) (simp add: chunks_Nil)
  qed
qed

lemma createBatches_chunks: "0 < b \<Longrightarrow> createBatches items b = Some (chunks b items)"
  by (simp add: createBatches_def createBatchesLoop_chunks)

lemma createBatches_Nil: "createBatches [] b = Some []"
  by (simp add: createBatches_def createBatchesLoop.simps)

lemma createBatchesLoop_zero:
  assumes "createBatchesLoop items b i acc = Some y"
  shows "b = 0 \<longrightarrow> \<not> i < length items"
proof (rule createBatchesLoop.raw_induct
    [where P = "\<lambda>items b i acc y. b = 0 \<longrightarrow> \<not> i < length items", OF _ assms])
  fix f :: "'a list \<Rightarrow> nat \<Rightarrow> nat \<Rightarrow> 'a list list \<Rightarrow> 'a list list option"
    and items b i batches y
  assume ih: "\<And>items b i batches y. f items b i batches = Some y \<Longrightarrow> b = 0 \<longrightarrow> \<not> i < length items"
    and eq: "(if i < length items
      then f items b (i + b) (batches @ [slice items i (i + b)])
      else Some batches) = Some y"
  show "b = 0 \<longrightarrow> \<not> i < length items"
  proof (intro impI notI)
    assume "b = 0" "i < length items"
    with eq have "f items b (i + b) (batches @ [slice items i (i + b)]) = Some y" by simp
    from ih [OF this] \<open>b = 0\<close> \<open>i < length items\<close> show False by simp
  qed
qed

text \<open>With a batch size of zero the loop does not return, unless there is nothing to batch.\<close>

lemma createBatches_zero: "items \<noteq> [] \<Longrightarrow> createBatches items 0 = None"
proof (cases "createBatches items 0")
  case None
  then show ?thesis .
next
  case (Some y)
  assume "items \<noteq> []"
  with createBatchesLoop_zero [of items 0 0 "[]" y] Some show ?thesis
    by (simp add: createBatches_def)
qed

lemma concat_chunks: "0 < b \<Longrightarrow> concat (chunks b xs) = xs"
proof (induction b xs rule: chunks.induct)
  case (1 b xs)
  show ?case
  proof (cases "xs = []")
    case True
    then show ?thesis by (simp add: chunks_Nil)
  next
    case False
    with 1 show ?thesis by (simp add: chunks_step)
  qed
qed

lemma chunks_cons:
  "0 < n \<Longrightarrow> length batch = n \<Longrightarrow> chunks n (batch @ rest) = batch # chunks n rest"
  by (subst chunks.simps) auto

subsection \<open>Settling and collecting\<close>

lemma settleBatch_append:
  "settleBatch run (xs @ ys) st =
     (case settleBatch run xs st of (a, st') \<Rightarrow>
        (case settleBatch run ys st' of (b, st'') \<Rightarrow> (a @ b, st'')))"
  by (induction xs arbitrary: st) (simp_all split: prod.splits)

lemma settleBatch_plans_eq: "settleBatch run xs st = (outs, st') \<Longrightarrow> map fst outs = xs"
  by (induction xs arbitrary: st outs st') (auto split: prod.splits)

lemma settleBatch_plans: "map fst (fst (settleBatch run xs st)) = xs"
  by (cases "settleBatch run xs st") (simp add: settleBatch_plans_eq)

lemma length_settleBatch: "length (fst (settleBatch run xs st)) = length xs"
proof -
  have "length (map fst (fst (settleBatch run xs st))) = length xs"
    by (simp only: settleBatch_plans)
  then show ?thesis by simp
qed

lemma collectResults_off:
  "collectResults False outs acc st = (Collected (acc @ map recorded outs), st)"
proof (induction outs arbitrary: acc)
  case Nil
  then show ?case by simp
next
  case (Cons out outs)
  obtain plan outcome where "out = (plan, outcome)" by (cases out)
  then show ?case using Cons.IH by (cases outcome) simp_all
qed

lemma not_reachedTarget_failureResult: "\<not> reachedTarget (failureResult sid msg)"
  by (simp add: reachedTarget_def failureResult_def)

lemma runBatches_off:
  "runBatches run False batches acc st =
     (acc @ map recorded (fst (settleBatch run (concat batches) st)),
      snd (settleBatch run (concat batches) st))"
proof (induction batches arbitrary: acc st)
  case Nil
  then show ?case by simp
next
  case (Cons batch batches)
  obtain outs st1 where settled: "settleBatch run batch st = (outs, st1)"
    by (cases "settleBatch run batch st")
  obtain outs' st2 where rest: "settleBatch run (concat batches) st1 = (outs', st2)"
    by (cases "settleBatch run (concat batches) st1")
  show ?case
    using settled rest Cons.IH [of "acc @ map recorded outs" st1]
    by (simp add: collectResults_off settleBatch_append)
qed

lemma collectedPrefix_all:
  "\<not> (es \<and> (\<exists>r \<in> set xs. reachedTarget r)) \<Longrightarrow> collectedPrefix es xs = xs"
  by (induction xs) auto

lemma collectedPrefix_append:
  "collectedPrefix es (xs @ ys) =
     (if es \<and> (\<exists>r \<in> set xs. reachedTarget r) then collectedPrefix es xs
      else xs @ collectedPrefix es ys)"
  by (induction xs) auto

lemma collectedPrefix_take:
  "collectedPrefix es xs = take (length (collectedPrefix es xs)) xs"
  by (induction xs) auto

lemma collectedPrefix_length_le: "length (collectedPrefix es xs) \<le> length xs"
  by (induction xs) auto

lemma collectedPrefix_length_iff:
  "i < length xs \<Longrightarrow>
     (i < length (collectedPrefix es xs)) = (\<not> es \<or> (\<forall>j < i. \<not> reachedTarget (xs ! j)))"
proof (induction xs arbitrary: i)
  case Nil
  then show ?case by simp
next
  case (Cons x xs)
  show ?case
  proof (cases i)
    case 0
    then show ?thesis by simp
  next
    case (Suc i')
    with Cons.prems have i': "i' < length xs" by simp
    show ?thesis
    proof (cases "es \<and> reachedTarget x")
      case True
      then have "\<not> (\<forall>j < i. \<not> reachedTarget ((x # xs) ! j))"
        using Suc by (auto intro: exI [of _ 0])
      with True Suc show ?thesis by simp
    next
      case False
      have "(\<forall>j < Suc i'. \<not> reachedTarget ((x # xs) ! j)) =
          (\<not> reachedTarget x \<and> (\<forall>j < i'. \<not> reachedTarget (xs ! j)))"
        by (auto simp: less_Suc_eq_0_disj)
      with False Suc Cons.IH [OF i'] show ?thesis by auto
    qed
  qed
qed

lemma collectedPrefix_first_hit:
  "k < length xs \<Longrightarrow> reachedTarget (xs ! k) \<Longrightarrow> \<forall>j < k. \<not> reachedTarget (xs ! j) \<Longrightarrow>
     collectedPrefix True xs = take (Suc k) xs"
proof (induction xs arbitrary: k)
  case Nil
  then show ?case by simp
next
  case (Cons x xs)
  show ?case
  proof (cases k)
    case 0
    with Cons.prems show ?thesis by simp
  next
    case (Suc k')
    with Cons.prems have "\<not> reachedTarget x" by auto
    moreover have "collectedPrefix True xs = take (Suc k') xs"
    proof (rule Cons.IH)
      show "k' < length xs" using Cons.prems(1) Suc by simp
      show "reachedTarget (xs ! k')" using Cons.prems(2) Suc by simp
      show "\<forall>j < k'. \<not> reachedTarget (xs ! j)"
      proof (intro allI impI)
        fix j assume "j < k'"
        then have "Suc j < k" using Suc by simp
        with Cons.prems(3) have "\<not> reachedTarget ((x # xs) ! Suc j)" by blast
        then show "\<not> reachedTarget (xs ! j)" by simp
      qed
    qed
    ultimately show ?thesis using Suc by simp
  qed
qed

lemma collectedPrefix_hit:
  "\<exists>r \<in> set (collectedPrefix True xs). reachedTarget r \<Longrightarrow>
     collectedPrefix True xs \<noteq> []
     \<and> length (collectedPrefix True xs) - 1 < length xs
     \<and> reachedTarget (xs ! (length (collectedPrefix True xs) - 1))
     \<and> (\<forall>j < length (collectedPrefix True xs) - 1. \<not> reachedTarget (xs ! j))"
proof (induction xs)
  case Nil
  then show ?case by simp
next
  case (Cons x xs)
  show ?case
  proof (cases "reachedTarget x")
    case True
    then show ?thesis by simp
  next
    case False
    with Cons.prems have "\<exists>r \<in> set (collectedPrefix True xs). reachedTarget r" by simp
    from Cons.IH [OF this] have ih: "collectedPrefix True xs \<noteq> []"
      "length (collectedPrefix True xs) - 1 < length xs"
      "reachedTarget (xs ! (length (collectedPrefix True xs) - 1))"
      "\<forall>j < length (collectedPrefix True xs) - 1. \<not> reachedTarget (xs ! j)"
      by simp_all
    from ih(1) obtain n where n: "length (collectedPrefix True xs) = Suc n"
      by (cases "collectedPrefix True xs") simp_all
    have "\<not> reachedTarget ((x # xs) ! j)" if "j < Suc n" for j
      using that False ih(4) n by (cases j) simp_all
    with False ih n show ?thesis by simp
  qed
qed

lemma collectResults_Inr:
  "collectResults es ((plan, Inr v) # rest) acc st =
     (if es \<and> reachedTarget v then (Returned (acc @ [v]), cancelRemainingExecutions st)
      else collectResults es rest (acc @ [v]) st)"
  by (simp add: reachedTarget_def)

lemma collectResults_prefix:
  "collectResults es outs acc st =
     (if es \<and> (\<exists>r \<in> set (map recorded outs). reachedTarget r)
      then (Returned (acc @ collectedPrefix es (map recorded outs)), cancelRemainingExecutions st)
      else (Collected (acc @ map recorded outs), st))"
proof (induction outs arbitrary: acc)
  case Nil
  then show ?case by simp
next
  case (Cons out outs)
  obtain plan outcome where out: "out = (plan, outcome)" by (cases out)
  show ?case
  proof (cases outcome)
    case (Inl reason)
    then show ?thesis
      using out Cons.IH by (simp add: not_reachedTarget_failureResult)
  next
    case (Inr v)
    show ?thesis
    proof (cases "es \<and> reachedTarget v")
      case True
      then show ?thesis using out Inr by (simp add: collectResults_Inr del: collectResults.simps)
    next
      case False
      then have "collectResults es (out # outs) acc st = collectResults es outs (acc @ [v]) st"
        using out Inr by (auto simp add: collectResults_Inr simp del: collectResults.simps)
      with False Cons.IH [of "acc @ [v]"] out Inr show ?thesis by auto
    qed
  qed
qed

lemma runBatches_results:
  "fst (runBatches run es batches acc st) =
     acc @ collectedPrefix es (map recorded (fst (settleBatch run (concat batches) st)))"
proof (induction batches arbitrary: acc st)
  case Nil
  then show ?case by simp
next
  case (Cons batch batches)
  obtain outs st1 where settled: "settleBatch run batch st = (outs, st1)"
    by (cases "settleBatch run batch st")
  obtain outs' st2 where rest: "settleBatch run (concat batches) st1 = (outs', st2)"
    by (cases "settleBatch run (concat batches) st1")
  have whole: "fst (settleBatch run (concat (batch # batches)) st) = outs @ outs'"
    using settled rest by (simp add: settleBatch_append)
  show ?case
  proof (cases "es \<and> (\<exists>r \<in> set (map recorded outs). reachedTarget r)")
    case True
    then have "collectResults es outs acc st1 =
        (Returned (acc @ collectedPrefix es (map recorded outs)), cancelRemainingExecutions st1)"
      by (subst collectResults_prefix) simp
    then have "fst (runBatches run es (batch # batches) acc st) =
        acc @ collectedPrefix es (map recorded outs)"
      using settled by simp
    moreover have "collectedPrefix es (map recorded (outs @ outs')) =
        collectedPrefix es (map recorded outs)"
      using True by (simp add: collectedPrefix_append)
    ultimately show ?thesis using whole by simp
  next
    case False
    then have "collectResults es outs acc st1 = (Collected (acc @ map recorded outs), st1)"
      by (subst collectResults_prefix) auto
    then have "fst (runBatches run es (batch # batches) acc st) =
        fst (runBatches run es batches (acc @ map recorded outs) st1)"
      using settled by simp
    also have "\<dots> = (acc @ map recorded outs) @ collectedPrefix es (map recorded outs')"
      using Cons.IH [of "acc @ map recorded outs" st1] rest by simp
    finally have "fst (runBatches run es (batch # batches) acc st) =
        acc @ map recorded outs @ collectedPrefix es (map recorded outs')"
      by simp
    moreover have "collectedPrefix es (map recorded (outs @ outs')) =
        map recorded outs @ collectedPrefix es (map recorded outs')"
      using False by (auto simp: collectedPrefix_append)
    ultimately show ?thesis using whole by simp
  qed
qed

lemma settleBatch_split:
  "settleBatch run xs st =
     (fst (settleBatch run (take i xs) st) @
        fst (settleBatch run (drop i xs) (snd (settleBatch run (take i xs) st))),
      snd (settleBatch run (drop i xs) (snd (settleBatch run (take i xs) st))))"
  using settleBatch_append [of run "take i xs" "drop i xs" st]
  by (simp split: prod.splits)

lemma settleBatch_whole:
  "fst (settleBatch run xs st) =
     fst (settleBatch run (take i xs) st) @
       fst (settleBatch run (drop i xs) (snd (settleBatch run (take i xs) st)))"
  by (subst settleBatch_split [of run xs st i]) simp

lemma settleBatch_take:
  "fst (settleBatch run (take i xs) st) = take i (fst (settleBatch run xs st))"
proof (cases "i \<le> length xs")
  case True
  have "length (fst (settleBatch run (take i xs) st)) = length (take i xs)"
    by (rule length_settleBatch)
  with True show ?thesis
    by (simp add: settleBatch_whole [of run xs st i])
next
  case False
  then show ?thesis by (simp add: length_settleBatch)
qed

lemma settleBatch_drop:
  "fst (settleBatch run (drop i xs) (snd (settleBatch run (take i xs) st))) =
     drop i (fst (settleBatch run xs st))"
proof (cases "i \<le> length xs")
  case True
  have "length (fst (settleBatch run (take i xs) st)) = length (take i xs)"
    by (rule length_settleBatch)
  with True show ?thesis
    by (simp add: settleBatch_whole [of run xs st i])
next
  case False
  then show ?thesis by (simp add: length_settleBatch)
qed

lemma runBatches_stop:
  "0 < n \<Longrightarrow> k < length plans \<Longrightarrow>
     reachedTarget (map recorded (fst (settleBatch run plans st)) ! k) \<Longrightarrow>
     \<forall>j < k. \<not> reachedTarget (map recorded (fst (settleBatch run plans st)) ! j) \<Longrightarrow>
     runBatches run True (chunks n plans) acc st =
       (acc @ take (Suc k) (map recorded (fst (settleBatch run plans st))),
        cancelRemainingExecutions (snd (settleBatch run
          (take (min (length plans) ((k div n + 1) * n)) plans) st)))
     \<and> (\<forall>later. n dvd min (length plans) ((k div n + 1) * n) \<longrightarrow>
          runBatches run True
            (chunks n (take (min (length plans) ((k div n + 1) * n)) plans @ later)) acc st =
          (acc @ take (Suc k) (map recorded (fst (settleBatch run plans st))),
           cancelRemainingExecutions (snd (settleBatch run
             (take (min (length plans) ((k div n + 1) * n)) plans) st))))"
proof (induction n plans arbitrary: acc st k rule: chunks.induct)
  case (1 n plans)
  define recs where "recs = map recorded (fst (settleBatch run plans st))"
  define m where "m = min (length plans) ((k div n + 1) * n)"
  have len_recs: "length recs = length plans"
    by (simp add: recs_def length_settleBatch)
  have k: "k < length plans" and hit: "reachedTarget (recs ! k)"
    and before: "\<forall>j < k. \<not> reachedTarget (recs ! j)"
    using "1.prems" by (simp_all add: recs_def)
  from k have nonempty: "plans \<noteq> []" by auto
  have npos: "0 < n" using "1.prems" by simp
  have step: "chunks n plans = take n plans # chunks n (drop n plans)"
    using npos nonempty by (rule chunks_step)
  obtain outs st1 where settled: "settleBatch run (take n plans) st = (outs, st1)"
    by (cases "settleBatch run (take n plans) st")
  have recs1: "map recorded outs = take n recs"
    using settleBatch_take [of run n plans st] settled by (simp add: recs_def take_map)
  have st1: "st1 = snd (settleBatch run (take n plans) st)"
    using settled by simp
  show ?case
    unfolding recs_def [symmetric] m_def [symmetric]
  proof (cases "k < n")
    case True
    have first: "collectedPrefix True (take n recs) = take (Suc k) recs"
    proof -
      have "collectedPrefix True (take n recs) = take (Suc k) (take n recs)"
      proof (rule collectedPrefix_first_hit)
        show "k < length (take n recs)" using True k len_recs by simp
        show "reachedTarget (take n recs ! k)" using True hit by simp
        show "\<forall>j < k. \<not> reachedTarget (take n recs ! j)" using True before by simp
      qed
      also have "\<dots> = take (Suc k) recs" using True by (simp add: min_def)
      finally show ?thesis .
    qed
    have "take n recs ! k \<in> set (take n recs)"
      using True k len_recs by (intro nth_mem) simp
    with True hit have found: "\<exists>r \<in> set (map recorded outs). reachedTarget r"
      unfolding recs1 by auto
    have collect: "collectResults True outs acc st1 =
        (Returned (acc @ take (Suc k) recs), cancelRemainingExecutions st1)"
      using found first recs1 by (subst collectResults_prefix) simp
    have "k div n = 0" using True by simp
    then have m: "m = min (length plans) n" by (simp add: m_def)
    then have prefix: "take m plans = take n plans" by (simp add: min_def)
    have main: "runBatches run True (chunks n plans) acc st =
        (acc @ take (Suc k) recs, cancelRemainingExecutions (snd (settleBatch run (take m plans) st)))"
      using step settled collect prefix by simp
    have later: "runBatches run True (chunks n (take m plans @ later)) acc st =
        (acc @ take (Suc k) recs, cancelRemainingExecutions (snd (settleBatch run (take m plans) st)))"
      if "n dvd m" for later
    proof -
      have "0 < m" using m npos nonempty by (cases plans) simp_all
      with that have "n \<le> m" by (rule dvd_imp_le)
      with m have "length (take n plans) = n" by simp
      then have "chunks n (take n plans @ later) = take n plans # chunks n later"
        using npos by (intro chunks_cons)
      then show ?thesis using prefix settled collect by simp
    qed
    from main later show "runBatches run True (chunks n plans) acc st =
        (acc @ take (Suc k) recs, cancelRemainingExecutions (snd (settleBatch run (take m plans) st)))
      \<and> (\<forall>later. n dvd m \<longrightarrow> runBatches run True (chunks n (take m plans @ later)) acc st =
        (acc @ take (Suc k) recs,
         cancelRemainingExecutions (snd (settleBatch run (take m plans) st))))"
      by blast
  next
    case False
    then have kn: "n \<le> k" by simp
    with k have full: "length (take n plans) = n" by simp
    define k' where "k' = k - n"
    define m' where "m' = min (length (drop n plans)) ((k' div n + 1) * n)"
    define recs' where "recs' = map recorded (fst (settleBatch run (drop n plans) st1))"
    have recs': "recs' = drop n recs"
      using settleBatch_drop [of run n plans st] st1 by (simp add: recs'_def recs_def drop_map)
    have none: "\<not> (\<exists>r \<in> set (map recorded outs). reachedTarget r)"
    proof
      assume "\<exists>r \<in> set (map recorded outs). reachedTarget r"
      then obtain r where r: "r \<in> set (take n recs)" "reachedTarget r"
        unfolding recs1 by blast
      then obtain j where "j < length (take n recs)" "take n recs ! j = r"
        by (auto simp: in_set_conv_nth)
      then have "j < k" "recs ! j = r" using kn by simp_all
      with before r(2) show False by blast
    qed
    have collect: "collectResults True outs acc st1 = (Collected (acc @ take n recs), st1)"
      using none recs1 by (subst collectResults_prefix) simp
    have run_step: "runBatches run True (take n plans # more) acc st =
        runBatches run True more (acc @ take n recs) st1" for more
      using settled collect by simp
    have k'_less: "k' < length (drop n plans)" using k kn by (simp add: k'_def)
    have hit': "reachedTarget (recs' ! k')"
      using hit kn k len_recs by (simp add: recs' k'_def)
    have before': "\<forall>j < k'. \<not> reachedTarget (recs' ! j)"
    proof (intro allI impI)
      fix j assume "j < k'"
      then have "n + j < k" by (simp add: k'_def)
      with before have "\<not> reachedTarget (recs ! (n + j))" by blast
      moreover have "n + j \<le> length recs" using \<open>n + j < k\<close> k len_recs by simp
      ultimately show "\<not> reachedTarget (recs' ! j)" by (simp add: recs')
    qed
    have cond: "\<not> (n = 0 \<or> plans = [])" using npos nonempty by simp
    note ih = "1.IH" [OF cond npos k'_less, where st = st1 and acc = "acc @ take n recs",
        unfolded recs'_def [symmetric] m'_def [symmetric], OF hit' before']
    have results: "(acc @ take n recs) @ take (Suc k') recs' = acc @ take (Suc k) recs"
    proof -
      have "take (n + Suc k') recs = take n recs @ take (Suc k') (drop n recs)"
        by (rule take_add)
      moreover have "n + Suc k' = Suc k" using kn by (simp add: k'_def)
      ultimately show ?thesis by (simp add: recs')
    qed
    have "k div n = Suc (k' div n)"
      using npos kn by (simp add: k'_def le_div_geq)
    moreover have "min (length plans) (n + q) = n + min (length plans - n) q" for q
      using k kn by arith
    ultimately have m_sum: "m = n + m'"
      by (simp add: m_def m'_def)
    have prefix: "take m plans = take n plans @ take m' (drop n plans)"
      unfolding m_sum by (rule take_add)
    have state: "snd (settleBatch run (take m plans) st) =
        snd (settleBatch run (take m' (drop n plans)) st1)"
      unfolding prefix using settled by (simp add: settleBatch_append split: prod.splits)
    have main: "runBatches run True (chunks n plans) acc st =
        (acc @ take (Suc k) recs, cancelRemainingExecutions (snd (settleBatch run (take m plans) st)))"
      using ih step run_step results state by simp
    have later: "runBatches run True (chunks n (take m plans @ later)) acc st =
        (acc @ take (Suc k) recs, cancelRemainingExecutions (snd (settleBatch run (take m plans) st)))"
      if "n dvd m" for later
    proof -
      from that have "n dvd m'" unfolding m_sum by simp
      with ih have "runBatches run True (chunks n (take m' (drop n plans) @ later))
          (acc @ take n recs) st1 =
        ((acc @ take n recs) @ take (Suc k') recs',
         cancelRemainingExecutions (snd (settleBatch run (take m' (drop n plans)) st1)))"
        by blast
      moreover have "chunks n (take m plans @ later) =
          take n plans # chunks n (take m' (drop n plans) @ later)"
        unfolding prefix using npos full by (simp add: chunks_cons)
      ultimately show ?thesis using run_step results state by simp
    qed
    from main later show "runBatches run True (chunks n plans) acc st =
        (acc @ take (Suc k) recs, cancelRemainingExecutions (snd (settleBatch run (take m plans) st)))
      \<and> (\<forall>later. n dvd m \<longrightarrow> runBatches run True (chunks n (take m plans @ later)) acc st =
        (acc @ take (Suc k) recs,
         cancelRemainingExecutions (snd (settleBatch run (take m plans) st))))"
      by blast
  qed
qed

subsection \<open>The example runs\<close>

lemmas example_defs = exampleEnv_def examplePlan_def exampleResult_def examplePayload_def
  resolved_def rejecting_def evaluationUnsuccessful_def evaluationAccurate_def initialState_def


lemma run_evaluation_unsuccessful:
  "wp (executeSingleStrategy (exampleEnv\<lparr>evaluationAgent := evaluationUnsuccessful\<rparr>)
         (examplePlan ''s1'') 0 1000)
     (\<lambda>r s. r = Inr \<lparr>ExecutionResult.strategyId = ''s1'', success = True,
                finalMetrics = \<lparr>accuracy = 0.5, loss = Finite 1, trainingTime = 120,
                                 modelSize = 10\<rparr>,
                model = Some 2, error = None\<rparr>)
     initialState"
  by (simp add: wp_executeSingleStrategy runner_defs wp_rules runTimeout_def example_defs)

text \<open>A run whose evaluation reports 0.97, started while another strategy is registered.\<close>

lemma run_accurate_busy:
  "wp (executeSingleStrategy (exampleEnv\<lparr>evaluationAgent := evaluationAccurate\<rparr>)
         (examplePlan ''a'') 0 1000)
     (\<lambda>r s. r = Inr \<lparr>ExecutionResult.strategyId = ''a'', success = True,
                finalMetrics = \<lparr>accuracy = 0.97, loss = Finite 1, trainingTime = 120,
                                 modelSize = 10\<rparr>,
                model = Some 2, error = None\<rparr>)
     busyState"
  by (simp add: wp_executeSingleStrategy runner_defs wp_rules runTimeout_def example_defs
      busyState_def)

section \<open>Properties of the executor\<close>

subsection \<open>Phase executor\<close>

text \<open>
  Claim C8. If the strategy's cancellation token is already triggered when
  \<^verbatim>\<open>executePhase\<close> is called, it fails at once with the error
  \<^verbatim>\<open>Execution aborted\<close>. The delegated work is not invoked: the outcome is the same
  for every executor, and the state, with its record of agent calls and its published
  events, is the one the phase was entered with.
\<close>

theorem executePhase_aborted:
  "signal \<in> aborted st \<Longrightarrow>
     executePhase ph plan executor signal st = (Inl (JSError ''Execution aborted''), st)"
  by (simp add: executePhase_def)

theorem executePhase_aborted_witness:
  "0 \<in> aborted (initialState\<lparr>aborted := {0}\<rparr>)
   \<and> executePhase Model (examplePlan ''s1'')
        (modelExecutor exampleEnv 1000 1 (examplePlan ''s1'') exampleResult) 0
        (initialState\<lparr>aborted := {0}\<rparr>)
      = (Inl (JSError ''Execution aborted''), initialState\<lparr>aborted := {0}\<rparr>)"
proof -
  have triggered: "0 \<in> aborted (initialState\<lparr>aborted := {0}\<rparr>)" by simp
  from executePhase_aborted [OF triggered] triggered show ?thesis by blast
qed

text \<open>
  Claim C7, as stated: every invocation of \<^verbatim>\<open>executePhase\<close> publishes one or two
  progress events. It fails for an invocation whose token is already triggered: the model
  phase of a strategy whose controller 0 has been aborted publishes nothing.
\<close>

theorem executePhase_events_counterexample:
  "length (published (initialState\<lparr>aborted := {0}\<rparr>)
     (snd (executePhase Model (examplePlan ''s1'')
            (modelExecutor exampleEnv 1000 1 (examplePlan ''s1'') exampleResult) 0
            (initialState\<lparr>aborted := {0}\<rparr>)))) \<notin> {1, 2}"
  by (simp add: executePhase_def published_def initialState_def)

text \<open>
  Claim C7, amended. An invocation of \<^verbatim>\<open>executePhase\<close> whose token is triggered
  publishes no event. Any other invocation, of delegated work that publishes nothing itself,
  publishes a \<^verbatim>\<open>running\<close> event with progress 25 first and, exactly when the delegated
  work returns normally, a \<^verbatim>\<open>completed\<close> event with progress 100 after it.
\<close>

theorem executePhase_events:
  assumes quiet: "\<And>s. events (snd (executor s)) = events s"
  shows "published st (snd (executePhase ph plan executor signal st)) =
     (if signal \<in> aborted st then []
      else \<lparr>ExecutionProgress.strategyId = OptimizationPlan.strategyId plan, phase = ph,
            progress = 25, status = Running,
            message = ''Executing '' @ phaseName ph @ '' phase'', metrics = None\<rparr> #
           (case fst (executePhase ph plan executor signal st) of
              Inl e \<Rightarrow> []
            | Inr v \<Rightarrow>
                [\<lparr>ExecutionProgress.strategyId = OptimizationPlan.strategyId plan, phase = ph,
                  progress = 100, status = Completed,
                  message = phaseName ph @ '' phase completed'', metrics = None\<rparr>]))"
proof (cases "signal \<in> aborted st")
  case True
  then show ?thesis by (simp add: executePhase_def published_def)
next
  case False
  let ?entered = "emitProgress
      \<lparr>ExecutionProgress.strategyId = OptimizationPlan.strategyId plan, phase = ph,
       progress = 25, status = Running,
       message = ''Executing '' @ phaseName ph @ '' phase'', metrics = None\<rparr> st"
  obtain r s2 where run: "executor ?entered = (r, s2)" by (cases "executor ?entered")
  with quiet [of ?entered] have "events s2 = events ?entered" by simp
  with False run show ?thesis
    by (cases r) (simp_all add: executePhase_def published_def emitProgress_def)
qed

lemma dataExecutor_quiet: "events (snd (dataExecutor env ms t plan dataset s)) = events s"
  by (simp add: dataExecutor_def awaitAgent_def runTimeout_frame)

theorem executePhase_events_witness:
  "(\<forall>s. events (snd (dataExecutor exampleEnv 1000 1 (examplePlan ''s1'') 0 s)) = events s)
   \<and> published initialState
        (snd (executePhase Data (examplePlan ''s1'')
               (dataExecutor exampleEnv 1000 1 (examplePlan ''s1'') 0) 0 initialState)) =
      [\<lparr>ExecutionProgress.strategyId = ''s1'', phase = Data, progress = 25, status = Running,
        message = ''Executing data phase'', metrics = None\<rparr>,
       \<lparr>ExecutionProgress.strategyId = ''s1'', phase = Data, progress = 100,
        status = Completed, message = ''data phase completed'', metrics = None\<rparr>]"
proof -
  have quiet: "\<And>s. events (snd (dataExecutor exampleEnv 1000 1 (examplePlan ''s1'') 0 s)) = events s"
    by (rule dataExecutor_quiet)
  have normal: "fst (executePhase Data (examplePlan ''s1'')
      (dataExecutor exampleEnv 1000 1 (examplePlan ''s1'') 0) 0 initialState) = Inr exampleResult"
    by (simp add: executePhase_def dataExecutor_def awaitAgent_def example_defs)
  from executePhase_events [of "dataExecutor exampleEnv 1000 1 (examplePlan ''s1'') 0",
      OF quiet, of initialState Data "examplePlan ''s1''" 0] normal quiet
  show ?thesis by (simp add: examplePlan_def initialState_def)
qed

subsection \<open>Strategy runner\<close>

text \<open>
  Claim C2 says that every failure path of \<^verbatim>\<open>executeSingleStrategy\<close>, a phase delegate
  returning \<^verbatim>\<open>success: false\<close> among them, yields a result with \<^verbatim>\<open>success = false\<close>
  and the failure sentinel. The source tests the \<^verbatim>\<open>success\<close> flag after the data, model
  and training phases but not after the evaluation phase: with an evaluation agent that
  resolves with \<^verbatim>\<open>success: false\<close> and a payload, the run returns a successful result
  carrying that payload's metrics and the model handle.
\<close>

theorem evaluation_failure_not_detected:
  "fst (executeSingleStrategy (exampleEnv\<lparr>evaluationAgent := evaluationUnsuccessful\<rparr>)
         (examplePlan ''s1'') 0 1000 initialState) =
     Inr \<lparr>ExecutionResult.strategyId = ''s1'', success = True,
          finalMetrics = \<lparr>accuracy = 0.5, loss = Finite 1, trainingTime = 120, modelSize = 10\<rparr>,
          model = Some 2, error = None\<rparr>"
  using run_evaluation_unsuccessful by (simp add: wp_def)




text \<open>
  The run of claim C2, whose evaluation agent resolves with \<^verbatim>\<open>success: false\<close>, ends
  in success and publishes no \<^verbatim>\<open>failed\<close> event.
\<close>

lemma evaluation_unsuccessful_no_failed_event:
  "filter (\<lambda>e. status e = Failed)
     (published initialState (snd (executeSingleStrategy
        (exampleEnv\<lparr>evaluationAgent := evaluationUnsuccessful\<rparr>) (examplePlan ''s1'') 0 1000
        initialState))) = []"
  using run_events [of "exampleEnv\<lparr>evaluationAgent := evaluationUnsuccessful\<rparr>"
      "examplePlan ''s1''" 0 1000 initialState] run_evaluation_unsuccessful
  by (simp add: wp_def)

text \<open>
  Claim C9. \<^verbatim>\<open>executeSingleStrategy\<close> enters its \<^verbatim>\<open>try\<close> block with the strategy's
  controller in the registry \<^verbatim>\<open>activeExecutions\<close> and its timer pending. When the run
  returns, on whatever path, the registry has no entry for the strategy id, the other
  entries are as they were, and the timer is gone.
\<close>

theorem registry_cleanup:
  "executeSingleStrategy env plan dataset ms st =
     tryCatch (strategyBody env plan dataset ms (nextHandle st) (Suc (nextHandle st)))
       (strategyHandler plan (Suc (nextHandle st)))
       (snd (setTimeout (nextHandle st)
          (registerExecution (OptimizationPlan.strategyId plan) (nextHandle st)
             (snd (newAbortController st)))))
   \<and> map_of (activeExecutions (snd (setTimeout (nextHandle st)
          (registerExecution (OptimizationPlan.strategyId plan) (nextHandle st)
             (snd (newAbortController st))))))
        (OptimizationPlan.strategyId plan) = Some (nextHandle st)
   \<and> timers (snd (setTimeout (nextHandle st)
          (registerExecution (OptimizationPlan.strategyId plan) (nextHandle st)
             (snd (newAbortController st)))))
        (Suc (nextHandle st)) = Some (nextHandle st)
   \<and> map_of (activeExecutions (snd (executeSingleStrategy env plan dataset ms st)))
        (OptimizationPlan.strategyId plan) = None
   \<and> map_of (activeExecutions (snd (executeSingleStrategy env plan dataset ms st))) =
        (map_of (activeExecutions st))(OptimizationPlan.strategyId plan := None)
   \<and> timers (snd (executeSingleStrategy env plan dataset ms st)) (Suc (nextHandle st)) = None"
proof -
  have registry: "activeExecutions (snd (executeSingleStrategy env plan dataset ms st)) =
      AList.delete (OptimizationPlan.strategyId plan) (activeExecutions st)"
    using run_registry [of env plan dataset ms st] by (simp add: wp_def)
  have timer: "timers (snd (executeSingleStrategy env plan dataset ms st)) =
      (timers st)(Suc (nextHandle st) := None)"
    using run_timers [of env plan dataset ms st] by (simp add: wp_def)
  have entry: "executeSingleStrategy env plan dataset ms st =
     tryCatch (strategyBody env plan dataset ms (nextHandle st) (Suc (nextHandle st)))
       (strategyHandler plan (Suc (nextHandle st)))
       (snd (setTimeout (nextHandle st)
          (registerExecution (OptimizationPlan.strategyId plan) (nextHandle st)
             (snd (newAbortController st)))))"
    by (simp add: executeSingleStrategy_def newAbortController_def registerExecution_def
        setTimeout_def)
  have registered: "map_of (activeExecutions (snd (setTimeout (nextHandle st)
          (registerExecution (OptimizationPlan.strategyId plan) (nextHandle st)
             (snd (newAbortController st))))))
        (OptimizationPlan.strategyId plan) = Some (nextHandle st)"
    by (simp add: newAbortController_def registerExecution_def setTimeout_def
        AList.update_conv')
  have pending: "timers (snd (setTimeout (nextHandle st)
          (registerExecution (OptimizationPlan.strategyId plan) (nextHandle st)
             (snd (newAbortController st)))))
        (Suc (nextHandle st)) = Some (nextHandle st)"
    by (simp add: newAbortController_def registerExecution_def setTimeout_def)
  have removed: "map_of (activeExecutions (snd (executeSingleStrategy env plan dataset ms st))) =
        (map_of (activeExecutions st))(OptimizationPlan.strategyId plan := None)"
    by (simp add: registry AList.delete_conv')
  show ?thesis
    using entry registered pending removed timer by simp
qed

subsection \<open>Batch scheduler\<close>

lemma settleBatch_run_ids:
  "map (ExecutionResult.strategyId \<circ> recorded)
     (fst (settleBatch (\<lambda>plan. executeSingleStrategy env plan dataset ms) plans st)) =
   map OptimizationPlan.strategyId plans"
proof (induction plans arbitrary: st)
  case Nil
  then show ?case by simp
next
  case (Cons plan plans)
  obtain res where res: "fst (executeSingleStrategy env plan dataset ms st) = Inr res"
    "ExecutionResult.strategyId res = OptimizationPlan.strategyId plan"
    using run_fulfilled by blast
  obtain st1 where run: "executeSingleStrategy env plan dataset ms st = (Inr res, st1)"
    using res(1) by (cases "executeSingleStrategy env plan dataset ms st") simp
  obtain outs st2 where rest:
    "settleBatch (\<lambda>plan. executeSingleStrategy env plan dataset ms) plans st1 = (outs, st2)"
    by (cases "settleBatch (\<lambda>plan. executeSingleStrategy env plan dataset ms) plans st1")
  show ?case using run rest res(2) Cons.IH [of st1] by simp
qed

lemma executeStrategiesWith_unfold:
  assumes "Options.maxConcurrent options \<noteq> Some 0"
  shows "executeStrategiesWith runner plans dataset options st =
     Some (runBatches
       (\<lambda>plan. runner plan dataset (case Options.timeout options of None \<Rightarrow> 3600000 | Some ms \<Rightarrow> ms))
       (case Options.earlyStopOnSuccess options of None \<Rightarrow> False | Some b \<Rightarrow> b)
       (chunks (case Options.maxConcurrent options of None \<Rightarrow> 3 | Some n \<Rightarrow> n) plans) [] st)"
proof -
  from assms have "0 < (case Options.maxConcurrent options of None \<Rightarrow> 3 | Some n \<Rightarrow> n)"
    by (cases "Options.maxConcurrent options") simp_all
  then show ?thesis
    by (simp add: executeStrategiesWith_def createBatches_chunks)
qed

lemma positive_batch_size:
  "Options.maxConcurrent options \<noteq> Some 0 \<Longrightarrow>
     0 < (case Options.maxConcurrent options of None \<Rightarrow> 3 | Some n \<Rightarrow> n)"
  by (cases "Options.maxConcurrent options") simp_all

lemma reachedTarget_recorded:
  "reachedTarget (recorded out) =
     (\<exists>v. snd out = Inr v \<and> ExecutionResult.success v
        \<and> FinalMetrics.accuracy (finalMetrics v) \<ge> 0.95)"
proof (cases out)
  case (Pair plan outcome)
  then show ?thesis
    by (cases outcome) (simp_all add: reachedTarget_def failureResult_simps)
qed

lemma settleBatch_registry:
  "activeExecutions (snd (settleBatch
       (\<lambda>plan. executeSingleStrategy env plan dataset ms) plans st)) =
   filter (\<lambda>entry. fst entry \<notin> OptimizationPlan.strategyId ` set plans) (activeExecutions st)"
proof (induction plans arbitrary: st)
  case Nil
  then show ?case by simp
next
  case (Cons plan plans)
  obtain r st1 where run: "executeSingleStrategy env plan dataset ms st = (r, st1)"
    by (cases "executeSingleStrategy env plan dataset ms st")
  then have first: "activeExecutions st1 =
      AList.delete (OptimizationPlan.strategyId plan) (activeExecutions st)"
    using run_registry [of env plan dataset ms st] by (simp add: wp_def)
  obtain outs st2 where rest:
    "settleBatch (\<lambda>plan. executeSingleStrategy env plan dataset ms) plans st1 = (outs, st2)"
    by (cases "settleBatch (\<lambda>plan. executeSingleStrategy env plan dataset ms) plans st1")
  with Cons.IH [of st1] have "activeExecutions st2 =
      filter (\<lambda>entry. fst entry \<notin> OptimizationPlan.strategyId ` set plans) (activeExecutions st1)"
    by simp
  also have "\<dots> = filter (\<lambda>entry. fst entry \<notin> OptimizationPlan.strategyId ` set (plan # plans))
      (activeExecutions st)"
    unfolding first by (auto simp add: AList.delete_eq intro!: filter_cong)
  finally show ?case using run rest by simp
qed

text \<open>
  Claim C1. With a maximal concurrency of at least one (or the default) and early stop not
  set, \<^verbatim>\<open>executeStrategies\<close> returns, and it returns one result per plan, the result at
  each position carrying the strategy id of the plan at that position.
\<close>

theorem executeStrategies_one_result_per_plan:
  assumes "Options.maxConcurrent options \<noteq> Some 0"
    and "Options.earlyStopOnSuccess options \<noteq> Some True"
  shows "\<exists>rs st'. executeStrategies env plans dataset options st = Some (rs, st')
     \<and> length rs = length plans
     \<and> map ExecutionResult.strategyId rs = map OptimizationPlan.strategyId plans"
proof -
  let ?ms = "case Options.timeout options of None \<Rightarrow> 3600000 | Some ms \<Rightarrow> ms"
  let ?n = "case Options.maxConcurrent options of None \<Rightarrow> 3 | Some n \<Rightarrow> n"
  let ?run = "\<lambda>plan. executeSingleStrategy env plan dataset ?ms"
  have off: "(case Options.earlyStopOnSuccess options of None \<Rightarrow> False | Some b \<Rightarrow> b) = False"
    using assms(2) by (cases "Options.earlyStopOnSuccess options") simp_all
  have "executeStrategies env plans dataset options st =
      Some (runBatches ?run False (chunks ?n plans) [] st)"
    using executeStrategiesWith_unfold [OF assms(1)] off by (simp add: executeStrategies_def)
  also have "runBatches ?run False (chunks ?n plans) [] st =
      (map recorded (fst (settleBatch ?run plans st)), snd (settleBatch ?run plans st))"
    using positive_batch_size [OF assms(1)] by (simp add: runBatches_off concat_chunks)
  finally have result: "executeStrategies env plans dataset options st =
      Some (map recorded (fst (settleBatch ?run plans st)), snd (settleBatch ?run plans st))" .
  have ids: "map ExecutionResult.strategyId (map recorded (fst (settleBatch ?run plans st))) =
      map OptimizationPlan.strategyId plans"
    using settleBatch_run_ids [of env dataset ?ms plans st] by simp
  have "length (map recorded (fst (settleBatch ?run plans st))) = length plans"
    by (simp add: length_settleBatch)
  with result ids show ?thesis by blast
qed

theorem executeStrategies_one_result_per_plan_witness:
  "Options.maxConcurrent exampleOptions \<noteq> Some 0
   \<and> Options.earlyStopOnSuccess exampleOptions \<noteq> Some True
   \<and> (\<exists>rs st'. executeStrategies exampleEnv
          [examplePlan ''a'', examplePlan ''b'', examplePlan ''c''] 0 exampleOptions initialState
          = Some (rs, st')
        \<and> length rs = length [examplePlan ''a'', examplePlan ''b'', examplePlan ''c'']
        \<and> map ExecutionResult.strategyId rs =
            map OptimizationPlan.strategyId [examplePlan ''a'', examplePlan ''b'', examplePlan ''c''])"
proof -
  have size: "Options.maxConcurrent exampleOptions \<noteq> Some 0"
    by (simp add: exampleOptions_def)
  have unset: "Options.earlyStopOnSuccess exampleOptions \<noteq> Some True"
    by (simp add: exampleOptions_def)
  from executeStrategies_one_result_per_plan [OF size unset] size unset
  show ?thesis by blast
qed

text \<open>
  Claim C3, as stated: when the promise of a strategy in a batch rejects, a failure result
  is recorded for its slot. It fails when early stop is set and an earlier promise of the
  batch has reached the target: with a batch of two, the first fulfilled with accuracy 0.97
  and the second rejected, the results are the first result alone.
\<close>

theorem rejected_run_counterexample:
  "fst (faultyRunner (examplePlan ''bad'') 0 1000 initialState) = Inl (JSError ''fault'')
   \<and> executeStrategiesWith faultyRunner [examplePlan ''a'', examplePlan ''bad''] 0
        (exampleOptions\<lparr>earlyStopOnSuccess := Some True\<rparr>) initialState =
      Some ([rankedExample ''a'' 0.97 100], initialState)"
  by (simp add: executeStrategiesWith_def createBatches_def createBatchesLoop.simps slice_def
      exampleOptions_def examplePlan_def faultyRunner_def rankedExample_def
      cancelRemainingExecutions_def initialState_def)

text \<open>
  Claim C3, amended. Whatever the promises of the strategy runs settle to,
  \<^verbatim>\<open>executeStrategies\<close> returns normally (for a maximal concurrency of at least one): a
  rejection is not passed on to the caller. Slot \<open>i\<close> is collected exactly when early stop
  is not set or no promise of an earlier slot was fulfilled with a successful result of
  accuracy at least 0.95. Every collected slot holds what its own promise settled to: for a
  rejected promise the failure sentinel with the strategy id of the plan in that slot and
  the message of the rejection reason, for a fulfilled promise the value itself, unchanged
  by what the other promises did.
\<close>

theorem rejected_run_isolated:
  assumes "Options.maxConcurrent options \<noteq> Some 0"
  shows "\<exists>rs st'. executeStrategiesWith runner plans dataset options st = Some (rs, st')
     \<and> length rs \<le> length plans
     \<and> (Options.earlyStopOnSuccess options \<noteq> Some True \<longrightarrow> length rs = length plans)
     \<and> (\<forall>i < length plans.
          (i < length rs) =
          (Options.earlyStopOnSuccess options \<noteq> Some True
           \<or> (\<forall>j < i. \<forall>v.
                 snd (fst (settleBatch
                   (\<lambda>plan. runner plan dataset
                      (case Options.timeout options of None \<Rightarrow> 3600000 | Some ms \<Rightarrow> ms))
                   plans st) ! j) = Inr v \<longrightarrow>
                 \<not> (ExecutionResult.success v
                      \<and> FinalMetrics.accuracy (finalMetrics v) \<ge> 0.95))))
     \<and> (\<forall>i < length rs.
          case snd (fst (settleBatch
                 (\<lambda>plan. runner plan dataset
                    (case Options.timeout options of None \<Rightarrow> 3600000 | Some ms \<Rightarrow> ms))
                 plans st) ! i) of
            Inl reason \<Rightarrow>
              rs ! i = failureResult (OptimizationPlan.strategyId (plans ! i))
                         (reasonMessage reason)
          | Inr v \<Rightarrow> rs ! i = v)"
proof -
  let ?ms = "case Options.timeout options of None \<Rightarrow> 3600000 | Some ms \<Rightarrow> ms"
  let ?n = "case Options.maxConcurrent options of None \<Rightarrow> 3 | Some n \<Rightarrow> n"
  let ?es = "case Options.earlyStopOnSuccess options of None \<Rightarrow> False | Some b \<Rightarrow> b"
  let ?run = "\<lambda>plan. runner plan dataset ?ms"
  let ?outs = "fst (settleBatch ?run plans st)"
  let ?result = "runBatches ?run ?es (chunks ?n plans) [] st"
  have pos: "0 < ?n" by (rule positive_batch_size [OF assms])
  have returned: "executeStrategiesWith runner plans dataset options st =
      Some (fst ?result, snd ?result)"
    using executeStrategiesWith_unfold [OF assms] by simp
  have results: "fst ?result = collectedPrefix ?es (map recorded ?outs)"
    using pos by (simp add: runBatches_results concat_chunks)
  have len_outs: "length (map recorded ?outs) = length plans"
    by (simp add: length_settleBatch)
  have len: "length (fst ?result) \<le> length plans"
    unfolding results using collectedPrefix_length_le [of ?es "map recorded ?outs"] len_outs
    by simp
  have es: "?es = (\<not> Options.earlyStopOnSuccess options \<noteq> Some True)"
    by (cases "Options.earlyStopOnSuccess options") simp_all
  have all: "length (fst ?result) = length plans"
    if "Options.earlyStopOnSuccess options \<noteq> Some True"
  proof -
    from that es have "\<not> ?es" by simp
    then have "fst ?result = map recorded ?outs"
      unfolding results by (simp add: collectedPrefix_all)
    then show ?thesis by (simp add: length_settleBatch)
  qed
  have reached: "(i < length (fst ?result)) =
      (Options.earlyStopOnSuccess options \<noteq> Some True
       \<or> (\<forall>j < i. \<forall>v. snd (?outs ! j) = Inr v \<longrightarrow>
             \<not> (ExecutionResult.success v
                  \<and> FinalMetrics.accuracy (finalMetrics v) \<ge> 0.95)))"
    if "i < length plans" for i
  proof -
    from that len_outs have i: "i < length (map recorded ?outs)" by simp
    have "(i < length (fst ?result)) =
        (\<not> ?es \<or> (\<forall>j < i. \<not> reachedTarget (map recorded ?outs ! j)))"
      unfolding results by (rule collectedPrefix_length_iff [OF i])
    also have "(\<forall>j < i. \<not> reachedTarget (map recorded ?outs ! j)) =
        (\<forall>j < i. \<not> reachedTarget (recorded (?outs ! j)))"
      using i by (intro all_cong1 imp_cong refl) simp
    finally show ?thesis
      using es by (auto simp add: reachedTarget_recorded)
  qed
  have slot: "case snd (?outs ! i) of
        Inl reason \<Rightarrow> fst ?result ! i =
          failureResult (OptimizationPlan.strategyId (plans ! i)) (reasonMessage reason)
      | Inr v \<Rightarrow> fst ?result ! i = v"
    if "i < length (fst ?result)" for i
  proof -
    from that len have i: "i < length ?outs"
      by (simp add: length_settleBatch)
    have "fst ?result = take (length (fst ?result)) (map recorded ?outs)"
      unfolding results by (rule collectedPrefix_take)
    then have "fst ?result ! i = take (length (fst ?result)) (map recorded ?outs) ! i"
      by simp
    with that i have entry: "fst ?result ! i = recorded (?outs ! i)"
      by simp
    have "map fst ?outs ! i = plans ! i"
      by (simp only: settleBatch_plans)
    with i have "fst (?outs ! i) = plans ! i" by simp
    then obtain outcome where "?outs ! i = (plans ! i, outcome)"
      by (cases "?outs ! i") simp
    with entry show ?thesis by (cases outcome) simp_all
  qed
  from returned len all reached slot show ?thesis by blast
qed

text \<open>
  An example with early stop set: the rejected slot comes before the result that reaches
  the target, a failure is recorded for it, and the slot after that result is not collected.
\<close>

lemma faulty_stop_example:
  "executeStrategiesWith faultyRunner
     [examplePlan ''bad'', examplePlan ''a'', examplePlan ''b''] 0
     (exampleOptions\<lparr>earlyStopOnSuccess := Some True\<rparr>) initialState =
   Some ([failureResult ''bad'' ''fault'', rankedExample ''a'' 0.97 100], initialState)"
  by (simp add: executeStrategiesWith_def createBatches_def createBatchesLoop.simps slice_def
      exampleOptions_def examplePlan_def faultyRunner_def rankedExample_def
      cancelRemainingExecutions_def initialState_def)

theorem rejected_run_isolated_witness:
  "Options.maxConcurrent (exampleOptions\<lparr>earlyStopOnSuccess := Some True\<rparr>) \<noteq> Some 0
   \<and> (\<exists>rs st'. executeStrategiesWith faultyRunner
          [examplePlan ''bad'', examplePlan ''a'', examplePlan ''b''] 0
          (exampleOptions\<lparr>earlyStopOnSuccess := Some True\<rparr>) initialState
          = Some (rs, st')
     \<and> rs = [failureResult ''bad'' ''fault'', rankedExample ''a'' 0.97 100]
     \<and> (\<forall>i < length [examplePlan ''bad'', examplePlan ''a'', examplePlan ''b''].
          (i < length rs) =
          (Options.earlyStopOnSuccess (exampleOptions\<lparr>earlyStopOnSuccess := Some True\<rparr>)
             \<noteq> Some True
           \<or> (\<forall>j < i. \<forall>v.
                 snd (fst (settleBatch
                   (\<lambda>plan. faultyRunner plan 0
                      (case Options.timeout (exampleOptions\<lparr>earlyStopOnSuccess := Some True\<rparr>)
                       of None \<Rightarrow> 3600000 | Some ms \<Rightarrow> ms))
                   [examplePlan ''bad'', examplePlan ''a'', examplePlan ''b''] initialState) ! j)
                   = Inr v \<longrightarrow>
                 \<not> (ExecutionResult.success v
                      \<and> FinalMetrics.accuracy (finalMetrics v) \<ge> 0.95))))
     \<and> (\<forall>i < length rs.
          case snd (fst (settleBatch
                 (\<lambda>plan. faultyRunner plan 0
                    (case Options.timeout (exampleOptions\<lparr>earlyStopOnSuccess := Some True\<rparr>)
                     of None \<Rightarrow> 3600000 | Some ms \<Rightarrow> ms))
                 [examplePlan ''bad'', examplePlan ''a'', examplePlan ''b''] initialState) ! i) of
            Inl reason \<Rightarrow>
              rs ! i = failureResult (OptimizationPlan.strategyId
                         ([examplePlan ''bad'', examplePlan ''a'', examplePlan ''b''] ! i))
                         (reasonMessage reason)
          | Inr v \<Rightarrow> rs ! i = v))"
proof -
  have size: "Options.maxConcurrent (exampleOptions\<lparr>earlyStopOnSuccess := Some True\<rparr>) \<noteq> Some 0"
    by (simp add: exampleOptions_def)
  have results: "rs = [failureResult ''bad'' ''fault'', rankedExample ''a'' 0.97 100]"
    if "executeStrategiesWith faultyRunner
          [examplePlan ''bad'', examplePlan ''a'', examplePlan ''b''] 0
          (exampleOptions\<lparr>earlyStopOnSuccess := Some True\<rparr>) initialState = Some (rs, st')"
    for rs st'
    using that faulty_stop_example by simp
  from rejected_run_isolated [OF size, of faultyRunner
      "[examplePlan ''bad'', examplePlan ''a'', examplePlan ''b'']" 0 initialState]
    size results
  show ?thesis by blast
qed

text \<open>An example with early stop unset: the rejected slot is a failure, its siblings are untouched.\<close>

lemma faulty_batch_example:
  "executeStrategiesWith faultyRunner
     [examplePlan ''a'', examplePlan ''bad'', examplePlan ''b''] 0 exampleOptions initialState =
   Some ([rankedExample ''a'' 0.97 100, failureResult ''bad'' ''fault'',
          rankedExample ''b'' 0.97 100],
         initialState)"
  by (simp add: executeStrategiesWith_def createBatches_def createBatchesLoop.simps slice_def
      exampleOptions_def examplePlan_def faultyRunner_def rankedExample_def)

text \<open>
  Claim C10. For an empty list of plans \<^verbatim>\<open>executeStrategies\<close> returns the empty list
  and leaves the state as it was: no agent is called and no event is published.
\<close>

theorem executeStrategies_empty:
  "executeStrategies env [] dataset options st = Some ([], st)"
  by (simp add: executeStrategies_def executeStrategiesWith_def createBatches_Nil)

lemma subset_chain:
  "C \<subseteq> B \<union> U \<Longrightarrow> B \<subseteq> A \<union> T \<Longrightarrow> C \<subseteq> A \<union> (T \<union> U)"
  by blast

lemma settleBatch_invocations:
  "taskId ` set (invocations (snd (settleBatch
       (\<lambda>plan. executeSingleStrategy env plan dataset ms) plans st)))
     \<subseteq> taskId ` set (invocations st) \<union> \<Union> (tasksOf ` set plans)"
proof (induction plans arbitrary: st)
  case Nil
  then show ?case by simp
next
  case (Cons plan plans)
  obtain r st1 where run: "executeSingleStrategy env plan dataset ms st = (r, st1)"
    by (cases "executeSingleStrategy env plan dataset ms st")
  then have first: "taskId ` set (invocations st1)
      \<subseteq> taskId ` set (invocations st) \<union> tasksOf plan"
    using run_invocations [of env plan dataset ms st] by (simp add: wp_def)
  obtain outs st2 where rest:
    "settleBatch (\<lambda>plan. executeSingleStrategy env plan dataset ms) plans st1 = (outs, st2)"
    by (cases "settleBatch (\<lambda>plan. executeSingleStrategy env plan dataset ms) plans st1")
  with Cons.IH [of st1] have later: "taskId ` set (invocations st2)
      \<subseteq> taskId ` set (invocations st1) \<union> \<Union> (tasksOf ` set plans)"
    by simp
  have "taskId ` set (invocations st2)
      \<subseteq> taskId ` set (invocations st) \<union> (tasksOf plan \<union> \<Union> (tasksOf ` set plans))"
    by (rule subset_chain [OF later first])
  then show ?case using run rest by simp
qed

text \<open>
  Claim C4. Let early stop be set and let the run collect a successful result with an
  accuracy of at least 0.95. Let \<open>n\<close> be the maximal concurrency and \<open>m\<close> the number of plans
  in the batches up to and including the batch of that result. Then the results end with
  that result, no earlier result reaches the target, and the results are what the first
  plans settled to, one per plan. The state is the one left by
  \<^verbatim>\<open>cancelRemainingExecutions\<close> after the runs of the first \<open>m\<close> plans: every controller
  registered at that moment is aborted (these are the controllers registered before the
  call under strategy ids other than those of the first \<open>m\<close> plans) and the registry is
  empty; cancelling calls no agent and publishes nothing. The plans after the first \<open>m\<close>
  are not run: every task handed to an agent is a task of one of the first \<open>m\<close> plans, and
  when the batch of the result is a full one, any plans may follow it without a change of
  results or state.
\<close>

theorem early_stop:
  assumes "Options.earlyStopOnSuccess options = Some True"
    and "map_option fst (executeStrategies env plans dataset options st) = Some rs"
    and "\<exists>r \<in> set rs. ExecutionResult.success r
           \<and> FinalMetrics.accuracy (finalMetrics r) \<ge> 0.95"
  shows
    "let n = (case Options.maxConcurrent options of None \<Rightarrow> 3 | Some n \<Rightarrow> n);
         run = (\<lambda>plan. executeSingleStrategy env plan dataset
                  (case Options.timeout options of None \<Rightarrow> 3600000 | Some ms \<Rightarrow> ms));
         m = min (length plans) (((length rs - 1) div n + 1) * n);
         s = snd (settleBatch run (take m plans) st)
     in \<exists>st'. executeStrategies env plans dataset options st = Some (rs, st')
          \<and> rs \<noteq> [] \<and> length rs \<le> m
          \<and> ExecutionResult.success (last rs)
          \<and> FinalMetrics.accuracy (finalMetrics (last rs)) \<ge> 0.95
          \<and> (\<forall>r \<in> set (butlast rs). \<not> (ExecutionResult.success r
                 \<and> FinalMetrics.accuracy (finalMetrics r) \<ge> 0.95))
          \<and> rs = map recorded (fst (settleBatch run (take (length rs) plans) st))
          \<and> st' = cancelRemainingExecutions s
          \<and> activeExecutions st' = []
          \<and> aborted st' = aborted s \<union> snd ` set (activeExecutions s)
          \<and> activeExecutions s =
              filter (\<lambda>entry. fst entry \<notin> OptimizationPlan.strategyId ` set (take m plans))
                (activeExecutions st)
          \<and> invocations st' = invocations s
          \<and> events st' = events s
          \<and> taskId ` set (invocations st')
               \<subseteq> taskId ` set (invocations st) \<union> \<Union> (tasksOf ` set (take m plans))
          \<and> (\<forall>later. n dvd m \<longrightarrow>
                executeStrategies env (take m plans @ later) dataset options st = Some (rs, st'))"
  unfolding Let_def
proof -
  let ?ms = "case Options.timeout options of None \<Rightarrow> 3600000 | Some ms \<Rightarrow> ms"
  let ?n = "case Options.maxConcurrent options of None \<Rightarrow> 3 | Some n \<Rightarrow> n"
  let ?run = "\<lambda>plan. executeSingleStrategy env plan dataset ?ms"
  let ?recs = "map recorded (fst (settleBatch ?run plans st))"
  let ?k = "length rs - 1"
  let ?m = "min (length plans) ((?k div ?n + 1) * ?n)"
  let ?s = "snd (settleBatch ?run (take ?m plans) st)"
  have nonempty: "plans \<noteq> []"
  proof
    assume "plans = []"
    with assms(2) have "rs = []"
      by (simp add: executeStrategies_def executeStrategiesWith_def createBatches_Nil)
    with assms(3) show False by simp
  qed
  have size: "Options.maxConcurrent options \<noteq> Some 0"
  proof
    assume "Options.maxConcurrent options = Some 0"
    with nonempty have "executeStrategies env plans dataset options st = None"
      by (simp add: executeStrategies_def executeStrategiesWith_def createBatches_zero)
    with assms(2) show False by simp
  qed
  then have pos: "0 < ?n" by (rule positive_batch_size)
  have unfold: "executeStrategies env ps dataset options st =
      Some (runBatches ?run True (chunks ?n ps) [] st)" for ps
    using executeStrategiesWith_unfold [OF size] assms(1) by (simp add: executeStrategies_def)
  have "fst (runBatches ?run True (chunks ?n plans) [] st) = rs"
    using assms(2) unfold [of plans] by simp
  then have prefix: "rs = collectedPrefix True ?recs"
    using pos by (simp add: runBatches_results concat_chunks)
  have len_recs: "length ?recs = length plans"
    by (simp add: length_settleBatch)
  have "\<exists>r \<in> set (collectedPrefix True ?recs). reachedTarget r"
    using assms(3) unfolding prefix reachedTarget_def .
  from collectedPrefix_hit [OF this]
  have filled: "rs \<noteq> []" and k: "?k < length plans" and hit: "reachedTarget (?recs ! ?k)"
    and before: "\<forall>j < ?k. \<not> reachedTarget (?recs ! j)"
    unfolding prefix [symmetric] len_recs by simp_all
  have first: "rs = take (Suc ?k) ?recs"
    using collectedPrefix_first_hit [of ?k ?recs] k hit before len_recs prefix by simp
  have len: "length rs = Suc ?k"
    using filled by (cases rs) simp_all
  note stop = runBatches_stop [OF pos k hit before, of "[]"]
  have state: "runBatches ?run True (chunks ?n plans) [] st = (rs, cancelRemainingExecutions ?s)"
    using stop first by simp
  have later: "runBatches ?run True (chunks ?n (take ?m plans @ later)) [] st =
      (rs, cancelRemainingExecutions ?s)" if "?n dvd ?m" for later
    using stop first that by simp
  have bound: "length rs \<le> ?m"
  proof -
    have "?k < (?k div ?n + 1) * ?n"
      using pos dividend_less_times_div [of ?n ?k] by (simp add: algebra_simps)
    with k len show ?thesis by simp
  qed
  have last: "last rs = ?recs ! ?k"
  proof -
    have "last rs = rs ! ?k" using filled by (rule last_conv_nth)
    also have "\<dots> = take (Suc ?k) ?recs ! ?k" using first by simp
    also have "\<dots> = ?recs ! ?k" by simp
    finally show ?thesis .
  qed
  have earlier: "\<not> reachedTarget r" if "r \<in> set (butlast rs)" for r
  proof -
    have "butlast rs = take ?k ?recs"
      using first k len_recs by (metis butlast_take diff_Suc_1 Suc_leI)
    with that obtain j where j: "j < length (take ?k ?recs)" "take ?k ?recs ! j = r"
      by (auto simp: in_set_conv_nth)
    then have "j < ?k" "?recs ! j = r" by simp_all
    with before show ?thesis by blast
  qed
  have own: "rs = map recorded (fst (settleBatch ?run (take (length rs) plans) st))"
    using first len by (simp add: settleBatch_take take_map)
  have tasks: "taskId ` set (invocations (cancelRemainingExecutions ?s))
      \<subseteq> taskId ` set (invocations st) \<union> \<Union> (tasksOf ` set (take ?m plans))"
    using settleBatch_invocations [of env dataset ?ms "take ?m plans" st]
    by (simp add: cancelRemainingExecutions_def)
  have registry: "activeExecutions ?s =
      filter (\<lambda>entry. fst entry \<notin> OptimizationPlan.strategyId ` set (take ?m plans))
        (activeExecutions st)"
    by (rule settleBatch_registry)
  show "\<exists>st'. executeStrategies env plans dataset options st = Some (rs, st')
          \<and> rs \<noteq> [] \<and> length rs \<le> ?m
          \<and> ExecutionResult.success (last rs)
          \<and> FinalMetrics.accuracy (finalMetrics (last rs)) \<ge> 0.95
          \<and> (\<forall>r \<in> set (butlast rs). \<not> (ExecutionResult.success r
                 \<and> FinalMetrics.accuracy (finalMetrics r) \<ge> 0.95))
          \<and> rs = map recorded (fst (settleBatch ?run (take (length rs) plans) st))
          \<and> st' = cancelRemainingExecutions ?s
          \<and> activeExecutions st' = []
          \<and> aborted st' = aborted ?s \<union> snd ` set (activeExecutions ?s)
          \<and> activeExecutions ?s =
              filter (\<lambda>entry. fst entry \<notin> OptimizationPlan.strategyId ` set (take ?m plans))
                (activeExecutions st)
          \<and> invocations st' = invocations ?s
          \<and> events st' = events ?s
          \<and> taskId ` set (invocations st')
               \<subseteq> taskId ` set (invocations st) \<union> \<Union> (tasksOf ` set (take ?m plans))
          \<and> (\<forall>later. ?n dvd ?m \<longrightarrow>
                executeStrategies env (take ?m plans @ later) dataset options st = Some (rs, st'))"
  proof (intro exI [of _ "cancelRemainingExecutions ?s"] conjI allI impI ballI)
    show "executeStrategies env plans dataset options st =
        Some (rs, cancelRemainingExecutions ?s)"
      using unfold [of plans] state by simp
    show "rs \<noteq> []" by (rule filled)
    show "length rs \<le> ?m" by (rule bound)
    show "ExecutionResult.success (last rs)"
      using hit last by (simp add: reachedTarget_def)
    show "FinalMetrics.accuracy (finalMetrics (last rs)) \<ge> 0.95"
      using hit last by (simp add: reachedTarget_def)
    show "\<not> (ExecutionResult.success r \<and> FinalMetrics.accuracy (finalMetrics r) \<ge> 0.95)"
      if "r \<in> set (butlast rs)" for r
      using earlier [OF that] by (simp add: reachedTarget_def)
    show "rs = map recorded (fst (settleBatch ?run (take (length rs) plans) st))"
      by (rule own)
    show "activeExecutions (cancelRemainingExecutions ?s) = []"
      by (simp add: cancelRemainingExecutions_def)
    show "aborted (cancelRemainingExecutions ?s) = aborted ?s \<union> snd ` set (activeExecutions ?s)"
      by (simp add: cancelRemainingExecutions_def)
    show "activeExecutions ?s =
        filter (\<lambda>entry. fst entry \<notin> OptimizationPlan.strategyId ` set (take ?m plans))
          (activeExecutions st)"
      by (rule registry)
    show "invocations (cancelRemainingExecutions ?s) = invocations ?s"
      by (simp add: cancelRemainingExecutions_def)
    show "events (cancelRemainingExecutions ?s) = events ?s"
      by (simp add: cancelRemainingExecutions_def)
    show "taskId ` set (invocations (cancelRemainingExecutions ?s))
        \<subseteq> taskId ` set (invocations st) \<union> \<Union> (tasksOf ` set (take ?m plans))"
      by (rule tasks)
    show "executeStrategies env (take ?m plans @ later) dataset options st =
        Some (rs, cancelRemainingExecutions ?s)" if "?n dvd ?m" for later
      using unfold [of "take ?m plans @ later"] later [OF that] by simp
  qed simp
qed

lemma accurate_run_example:
  "map_option fst (executeStrategies (exampleEnv\<lparr>evaluationAgent := evaluationAccurate\<rparr>)
      [examplePlan ''a'', examplePlan ''b''] 0 earlyStopOptions busyState) =
   Some [\<lparr>ExecutionResult.strategyId = ''a'', success = True,
          finalMetrics = \<lparr>accuracy = 0.97, loss = Finite 1, trainingTime = 120,
                           modelSize = 10\<rparr>,
          model = Some 2, error = None\<rparr>]"
proof -
  obtain st1 where run:
    "executeSingleStrategy (exampleEnv\<lparr>evaluationAgent := evaluationAccurate\<rparr>)
       (examplePlan ''a'') 0 1000 busyState =
     (Inr \<lparr>ExecutionResult.strategyId = ''a'', success = True,
          finalMetrics = \<lparr>accuracy = 0.97, loss = Finite 1, trainingTime = 120,
                           modelSize = 10\<rparr>,
          model = Some 2, error = None\<rparr>, st1)"
    using run_accurate_busy
    by (cases "executeSingleStrategy (exampleEnv\<lparr>evaluationAgent := evaluationAccurate\<rparr>)
       (examplePlan ''a'') 0 1000 busyState") (simp add: wp_def)
  show ?thesis
    by (simp add: executeStrategies_def executeStrategiesWith_def createBatches_def
        createBatchesLoop.simps slice_def earlyStopOptions_def run)
qed

theorem early_stop_witness:
  "Options.earlyStopOnSuccess earlyStopOptions = Some True
   \<and> map_option fst (executeStrategies (exampleEnv\<lparr>evaluationAgent := evaluationAccurate\<rparr>)
        [examplePlan ''a'', examplePlan ''b''] 0 earlyStopOptions busyState) =
      Some [\<lparr>ExecutionResult.strategyId = ''a'', success = True,
             finalMetrics = \<lparr>accuracy = 0.97, loss = Finite 1, trainingTime = 120,
                              modelSize = 10\<rparr>,
             model = Some 2, error = None\<rparr>]
   \<and> (\<exists>st'. executeStrategies (exampleEnv\<lparr>evaluationAgent := evaluationAccurate\<rparr>)
          [examplePlan ''a'', examplePlan ''b''] 0 earlyStopOptions busyState =
        Some ([\<lparr>ExecutionResult.strategyId = ''a'', success = True,
                finalMetrics = \<lparr>accuracy = 0.97, loss = Finite 1, trainingTime = 120,
                                 modelSize = 10\<rparr>,
                model = Some 2, error = None\<rparr>], st')
      \<and> activeExecutions busyState = [(''other'', 7)]
      \<and> 7 \<notin> aborted busyState
      \<and> 7 \<in> aborted st'
      \<and> activeExecutions st' = []
      \<and> taskId ` set (invocations st')
           \<subseteq> taskId ` set (invocations busyState) \<union> tasksOf (examplePlan ''a'')
      \<and> executeStrategies (exampleEnv\<lparr>evaluationAgent := evaluationAccurate\<rparr>)
          ([examplePlan ''a''] @ [examplePlan ''c'', examplePlan ''d'']) 0 earlyStopOptions
          busyState =
        Some ([\<lparr>ExecutionResult.strategyId = ''a'', success = True,
                finalMetrics = \<lparr>accuracy = 0.97, loss = Finite 1, trainingTime = 120,
                                 modelSize = 10\<rparr>,
                model = Some 2, error = None\<rparr>], st'))"
proof -
  let ?env = "exampleEnv\<lparr>evaluationAgent := evaluationAccurate\<rparr>"
  let ?plans = "[examplePlan ''a'', examplePlan ''b'']"
  let ?res = "\<lparr>ExecutionResult.strategyId = ''a'', success = True,
             finalMetrics = \<lparr>accuracy = 0.97, loss = Finite 1, trainingTime = 120,
                              modelSize = 10\<rparr>,
             model = Some 2, error = None\<rparr>"
  let ?n = "case Options.maxConcurrent earlyStopOptions of None \<Rightarrow> 3 | Some n \<Rightarrow> n"
  let ?run = "\<lambda>plan. executeSingleStrategy ?env plan 0
      (case Options.timeout earlyStopOptions of None \<Rightarrow> 3600000 | Some ms \<Rightarrow> ms)"
  let ?m = "min (length ?plans) (((length [?res] - 1) div ?n + 1) * ?n)"
  let ?s = "snd (settleBatch ?run (take ?m ?plans) busyState)"
  have set: "Options.earlyStopOnSuccess earlyStopOptions = Some True"
    by (simp add: earlyStopOptions_def)
  have hit: "\<exists>r \<in> set [?res]. ExecutionResult.success r
      \<and> FinalMetrics.accuracy (finalMetrics r) \<ge> 0.95"
    by simp
  from early_stop [OF set accurate_run_example hit, unfolded Let_def]
  obtain st' where
    run: "executeStrategies ?env ?plans 0 earlyStopOptions busyState = Some ([?res], st')"
    and cleared: "activeExecutions st' = []"
    and cancelled: "aborted st' = aborted ?s \<union> snd ` set (activeExecutions ?s)"
    and registry: "activeExecutions ?s =
        filter (\<lambda>entry. fst entry \<notin> OptimizationPlan.strategyId ` set (take ?m ?plans))
          (activeExecutions busyState)"
    and tasks: "taskId ` set (invocations st')
        \<subseteq> taskId ` set (invocations busyState) \<union> \<Union> (tasksOf ` set (take ?m ?plans))"
    and later: "\<forall>later. ?n dvd ?m \<longrightarrow>
        executeStrategies ?env (take ?m ?plans @ later) 0 earlyStopOptions busyState =
        Some ([?res], st')"
    by blast
  have n: "?n = 1" by (simp add: earlyStopOptions_def)
  have m: "?m = 1" by (simp add: earlyStopOptions_def)
  have registered: "activeExecutions busyState = [(''other'', 7)]"
    and fresh: "7 \<notin> aborted busyState"
    by (simp_all add: busyState_def initialState_def)
  have "activeExecutions ?s = [(''other'', 7)]"
    by (rule trans [OF registry]) (simp add: earlyStopOptions_def registered examplePlan_def)
  with cancelled have aborted: "7 \<in> aborted st'" by simp
  have tasks': "taskId ` set (invocations st')
      \<subseteq> taskId ` set (invocations busyState) \<union> tasksOf (examplePlan ''a'')"
    using tasks unfolding m by simp
  have "executeStrategies ?env (take ?m ?plans @ [examplePlan ''c'', examplePlan ''d'']) 0
      earlyStopOptions busyState = Some ([?res], st')"
    using later n m by simp
  then have later': "executeStrategies ?env ([examplePlan ''a''] @ [examplePlan ''c'', examplePlan ''d''])
      0 earlyStopOptions busyState = Some ([?res], st')"
    unfolding m by simp
  from set accurate_run_example run registered fresh aborted cleared tasks' later'
  show ?thesis by blast
qed

subsection \<open>Comparator\<close>

lemma compareFn_flip: "compareFn b a = - compareFn a b"
  by (simp add: compareFn_def abs_minus_commute)

lemma compareFn_total: "compareFn a b \<le> 0 \<or> compareFn b a \<le> 0"
  using compareFn_flip [of b a] by linarith

lemma mset_insertSorted: "mset (insertSorted cmp x ys) = add_mset x (mset ys)"
  by (induction ys) simp_all

lemma mset_arraySort: "mset (arraySort cmp xs) = mset xs"
  by (induction xs) (simp_all add: mset_insertSorted)

lemma set_insertSorted: "set (insertSorted cmp x ys) = insert x (set ys)"
proof -
  have "set_mset (mset (insertSorted cmp x ys)) = set_mset (add_mset x (mset ys))"
    by (simp only: mset_insertSorted)
  then show ?thesis by simp
qed

lemma set_arraySort: "set (arraySort cmp xs) = set xs"
proof -
  have "set_mset (mset (arraySort cmp xs)) = set_mset (mset xs)"
    by (simp only: mset_arraySort)
  then show ?thesis by simp
qed

lemma sorted_insertSorted:
  assumes total: "\<And>a b. cmp a b \<le> 0 \<or> cmp b a \<le> 0"
    and trans: "\<And>a b c. a \<in> insert x (set ys) \<Longrightarrow> b \<in> insert x (set ys)
        \<Longrightarrow> c \<in> insert x (set ys) \<Longrightarrow> cmp a b \<le> 0 \<Longrightarrow> cmp b c \<le> 0 \<Longrightarrow> cmp a c \<le> 0"
    and sorted: "sorted_wrt (\<lambda>a b. cmp a b \<le> 0) ys"
  shows "sorted_wrt (\<lambda>a b. cmp a b \<le> 0) (insertSorted cmp x ys)"
  using trans sorted
proof (induction ys)
  case Nil
  then show ?case by simp
next
  case (Cons y ys)
  show ?case
  proof (cases "cmp x y \<le> 0")
    case True
    have "cmp x z \<le> 0" if "z \<in> set ys" for z
    proof -
      from Cons.prems(2) that have "cmp y z \<le> 0" by simp
      with True that show ?thesis using Cons.prems(1) [of x y z] by simp
    qed
    with True Cons.prems(2) show ?thesis by simp
  next
    case False
    with total [of x y] have yx: "cmp y x \<le> 0" by blast
    have tail: "sorted_wrt (\<lambda>a b. cmp a b \<le> 0) (insertSorted cmp x ys)"
    proof (rule Cons.IH)
      show "cmp a c \<le> 0" if "a \<in> insert x (set ys)" "b \<in> insert x (set ys)"
        "c \<in> insert x (set ys)" "cmp a b \<le> 0" "cmp b c \<le> 0" for a b c
        using that Cons.prems(1) [of a b c] by auto
      show "sorted_wrt (\<lambda>a b. cmp a b \<le> 0) ys"
        using Cons.prems(2) by simp
    qed
    have "cmp y z \<le> 0" if "z \<in> set (insertSorted cmp x ys)" for z
      using that yx Cons.prems(2) by (auto simp: set_insertSorted)
    with False tail show ?thesis by simp
  qed
qed

lemma sorted_arraySort:
  assumes total: "\<And>a b. cmp a b \<le> 0 \<or> cmp b a \<le> 0"
    and trans: "\<And>a b c. a \<in> set xs \<Longrightarrow> b \<in> set xs \<Longrightarrow> c \<in> set xs
        \<Longrightarrow> cmp a b \<le> 0 \<Longrightarrow> cmp b c \<le> 0 \<Longrightarrow> cmp a c \<le> 0"
  shows "sorted_wrt (\<lambda>a b. cmp a b \<le> 0) (arraySort cmp xs)"
  using trans
proof (induction xs)
  case Nil
  then show ?case by simp
next
  case (Cons x xs)
  have inner: "sorted_wrt (\<lambda>a b. cmp a b \<le> 0) (arraySort cmp xs)"
  proof (rule Cons.IH)
    fix a b c
    assume "a \<in> set xs" "b \<in> set xs" "c \<in> set xs" "cmp a b \<le> 0" "cmp b c \<le> 0"
    then show "cmp a c \<le> 0" using Cons.prems [of a b c] by simp
  qed
  have "sorted_wrt (\<lambda>a b. cmp a b \<le> 0) (insertSorted cmp x (arraySort cmp xs))"
  proof (rule sorted_insertSorted [OF total _ inner])
    fix a b c
    assume "a \<in> insert x (set (arraySort cmp xs))" "b \<in> insert x (set (arraySort cmp xs))"
      "c \<in> insert x (set (arraySort cmp xs))" "cmp a b \<le> 0" "cmp b c \<le> 0"
    then show "cmp a c \<le> 0" using Cons.prems [of a b c] by (simp add: set_arraySort)
  qed
  then show ?case by simp
qed

text \<open>
  Claim C5 says that every ranking has the more accurate of two results first, except that
  two results whose accuracies differ by less than 0.01 are in the order of their training
  times. The comparison function of the source is not an order: take three successful
  results \<open>a\<close>, \<open>b\<close>, \<open>c\<close> with accuracies 0.900, 0.906, 0.912 and training times 1, 2, 3.
  Each is within 0.01 of the next and faster, so \<open>a\<close> compares before \<open>b\<close> and \<open>b\<close> before
  \<open>c\<close>; but \<open>c\<close> is more accurate than \<open>a\<close> by 0.012 and compares before \<open>a\<close>. None of the
  six orders of the three results is the specified one, so the ranking departs from the
  specification whatever \<^verbatim>\<open>sort\<close> returns. For the input \<open>[a, b, c]\<close> the ranking is
  \<open>[a, b, c]\<close>: \<open>best\<close> is the least accurate result, although the source announces a
  sort with accuracy as the primary key.
\<close>

theorem ranking_not_by_accuracy:
  "let a = rankedExample ''a'' 0.900 1;
       b = rankedExample ''b'' 0.906 2;
       c = rankedExample ''c'' 0.912 3
   in compareFn a b < 0 \<and> compareFn b c < 0 \<and> compareFn c a < 0
      \<and> \<not> sorted_wrt specifiedOrder [a, b, c]
      \<and> \<not> sorted_wrt specifiedOrder [a, c, b]
      \<and> \<not> sorted_wrt specifiedOrder [b, a, c]
      \<and> \<not> sorted_wrt specifiedOrder [b, c, a]
      \<and> \<not> sorted_wrt specifiedOrder [c, a, b]
      \<and> \<not> sorted_wrt specifiedOrder [c, b, a]
      \<and> map_sum id ranking (compareStrategies [a, b, c]) = Inr [a, b, c]
      \<and> map_sum id best (compareStrategies [a, b, c]) = Inr a
      \<and> FinalMetrics.accuracy (finalMetrics c) - FinalMetrics.accuracy (finalMetrics a) > 0.01"
  by (simp add: Let_def compareStrategies_def compareFn_def rankedExample_def specifiedOrder_def)

text \<open>
  Where the comparison is transitive on the successful results, the ranking is the one the
  source intends: it consists of the successful results, \<open>best\<close> is its first element, and
  of any two of its elements the earlier is the more accurate one if their accuracies
  differ by more than 0.01, and otherwise is not the slower one.
\<close>

lemma compareFn_le_iff:
  "(compareFn a b \<le> 0) =
     (if \<bar>FinalMetrics.accuracy (finalMetrics a) - FinalMetrics.accuracy (finalMetrics b)\<bar> > 0.01
      then FinalMetrics.accuracy (finalMetrics a) > FinalMetrics.accuracy (finalMetrics b)
      else FinalMetrics.trainingTime (finalMetrics a) \<le> FinalMetrics.trainingTime (finalMetrics b))"
  by (auto simp add: compareFn_def)

lemma ranking_when_transitive:
  assumes "\<exists>r \<in> set results. ExecutionResult.success r"
    and "\<forall>a \<in> set results. \<forall>b \<in> set results. \<forall>c \<in> set results.
           ExecutionResult.success a \<and> ExecutionResult.success b \<and> ExecutionResult.success c
           \<and> compareFn a b \<le> 0 \<and> compareFn b c \<le> 0 \<longrightarrow> compareFn a c \<le> 0"
  shows "\<exists>c. compareStrategies results = Inr c
     \<and> ranking c \<noteq> [] \<and> best c = hd (ranking c)
     \<and> mset (ranking c) = mset (filter ExecutionResult.success results)
     \<and> sorted_wrt
          (\<lambda>a b. if \<bar>FinalMetrics.accuracy (finalMetrics a)
                        - FinalMetrics.accuracy (finalMetrics b)\<bar> > 0.01
                 then FinalMetrics.accuracy (finalMetrics a)
                        > FinalMetrics.accuracy (finalMetrics b)
                 else FinalMetrics.trainingTime (finalMetrics a)
                        \<le> FinalMetrics.trainingTime (finalMetrics b))
          (ranking c)"
proof -
  let ?ranked = "arraySort compareFn (filter ExecutionResult.success results)"
  have perm: "mset ?ranked = mset (filter ExecutionResult.success results)"
    by (rule mset_arraySort)
  have "sorted_wrt (\<lambda>a b. compareFn a b \<le> 0) ?ranked"
    by (rule sorted_arraySort [OF compareFn_total]) (use assms(2) in auto)
  then have sorted: "sorted_wrt
      (\<lambda>a b. if \<bar>FinalMetrics.accuracy (finalMetrics a)
                    - FinalMetrics.accuracy (finalMetrics b)\<bar> > 0.01
             then FinalMetrics.accuracy (finalMetrics a)
                    > FinalMetrics.accuracy (finalMetrics b)
             else FinalMetrics.trainingTime (finalMetrics a)
                    \<le> FinalMetrics.trainingTime (finalMetrics b))
      ?ranked"
    by (simp only: compareFn_le_iff)
  from assms(1) have "filter ExecutionResult.success results \<noteq> []"
    by (auto simp: filter_empty_conv)
  with perm have "?ranked \<noteq> []" by auto
  then obtain first others where ranked: "?ranked = first # others"
    by (cases ?ranked) simp_all
  then obtain c where "compareStrategies results = Inr c" "ranking c = ?ranked"
    "best c = first"
    by (simp add: compareStrategies_def)
  with ranked perm sorted show ?thesis by (intro exI [of _ c]) simp
qed

text \<open>
  The example of the specification: accuracies 0.901 and 0.905 with training times 100 and
  80. The result with training time 80 is ranked first, whichever of the two accuracies it
  has and whichever of the two comes first in the input.
\<close>

lemma tie_break_example:
  "map_sum id ranking
     (compareStrategies [rankedExample ''x'' 0.901 100, rankedExample ''y'' 0.905 80]) =
   Inr [rankedExample ''y'' 0.905 80, rankedExample ''x'' 0.901 100]"
  "map_sum id ranking
     (compareStrategies [rankedExample ''y'' 0.905 80, rankedExample ''x'' 0.901 100]) =
   Inr [rankedExample ''y'' 0.905 80, rankedExample ''x'' 0.901 100]"
  "map_sum id ranking
     (compareStrategies [rankedExample ''x'' 0.905 100, rankedExample ''y'' 0.901 80]) =
   Inr [rankedExample ''y'' 0.901 80, rankedExample ''x'' 0.905 100]"
  by (simp_all add: compareStrategies_def compareFn_def rankedExample_def)

lemma compareStrategies_none:
  "\<not> (\<exists>r \<in> set results. ExecutionResult.success r) \<Longrightarrow>
     compareStrategies results = Inl (JSError ''No successful strategies to compare'')"
  by (simp add: compareStrategies_def filter_empty_conv [THEN iffD2])

end
